theory Spec2Isabelle
  imports Complex_Main "HOL-Library.Word"
begin

section \<open>The driver of topoGen: \<^verbatim>\<open>src/topoGen.cpp\<close>\<close>

text \<open>
  The driver \<^verbatim>\<open>main\<close> of topoGen runs the whole pipeline. It threads one location
  store and one base topology through the classes it includes
  (\<^verbatim>\<open>NodeImporter\<close>, \<^verbatim>\<open>OPTICSFilter\<close>, \<^verbatim>\<open>DelaunayGraphCreator\<close>, \<^verbatim>\<open>BetaSkeletonFilter\<close>,
  \<^verbatim>\<open>PopulationDensityFilter\<close>, \<^verbatim>\<open>BaseTopology\<close>, \<^verbatim>\<open>SimulationTopology\<close>, the writers).
  Those classes live in headers of their own, outside the driver, so the embedding of the
  driver takes them as parameters (the record \<open>env\<close>) and records every call the
  driver makes to them, in order, in a trace. A finite C++ \<^verbatim>\<open>double\<close> is read as the
  \<open>real\<close> it stands for, and the arithmetic on doubles rounds as binary64 does;
  \<^verbatim>\<open>unsigned int\<close> and \<^verbatim>\<open>int\<close> are 32-bit words, and \<^verbatim>\<open>assert\<close> is active (a build
  without \<^verbatim>\<open>NDEBUG\<close>): a failed assertion ends the run.
\<close>

subsection \<open>Data\<close>

type_synonym seed = int

text \<open>A location object. The driver only ever calls \<^verbatim>\<open>setId(int)\<close> on it.\<close>

record Location =
  loc_id :: "32 word"
  latitude :: real
  longitude :: real

text \<open>
  The location store behind \<^verbatim>\<open>Locations_Ptr\<close>: a container of pointers to location
  objects, in iteration order, and the objects the pointers lead to. The importer, the
  OPTICS filters and the driver all work on this one container.
\<close>

type_synonym Location_Ptr = nat

record Locations =
  entries :: "Location_Ptr list"
  objects :: "Location_Ptr \<Rightarrow> Location"

text \<open>\<^verbatim>\<open>SimulationNode(id, latitude, longitude)\<close>, built from one JSON entry.\<close>

record SimulationNode =
  sim_id :: "32 word"
  sim_latitude :: real
  sim_longitude :: real

text \<open>
  The values \<^verbatim>\<open>config->get<T>("...")\<close> returns, by key. The colour and alpha entries
  of \<^verbatim>\<open>kml_graph_output\<close> only style the KML files and are left out.
\<close>

record Config =
  debug_enable :: bool
  neighbourCluster_minPts :: "32 word"
  neighbourCluster_maxClusterDistance :: real
  metropolisCluster_minPts :: "32 word"
  metropolisCluster_maxClusterDistance :: real
  lengthFilter_enable :: bool
  kml_delaunayFile :: string
  kml_gabrielFile :: string
  simple_nodeFile :: string
  simple_edgeFile :: string
  json_filename :: string
  json_pretty_print :: bool

text \<open>What the getters of \<^verbatim>\<open>CMDArgs\<close> return.\<close>

record CMDArgs =
  getSeed :: seed
  kmlOutputEnabled :: bool
  graphOutputEnabled :: bool
  simNodesJSONFile :: string
  jsonOutputEnabled :: bool
  jsonOutputFile :: string

text \<open>
  The collaborators, as the driver calls them. \<open>'g\<close> is the base topology
  (\<^verbatim>\<open>BaseTopology\<close>), \<open>'s\<close> what the simulation topology holds of its own. Each function
  takes the objects the C++ method can reach and returns them updated. The simulation
  topology is constructed from the shared pointer \<^verbatim>\<open>baseTopo\<close>, so \<open>addNode\<close> works on
  the pair of the base topology and the simulation topology. \<open>ofstream_good\<close> says whether
  a file could be opened for writing; \<open>parseSimNodes\<close> is \<^verbatim>\<open>Json::Reader::parse\<close> followed
  by reading \<^verbatim>\<open>root["nodes"]\<close>, with \<open>None\<close> when parsing fails.
\<close>

record ('g, 's) env =
  importCities :: "seed \<Rightarrow> Locations"
  importCitiesFromFile :: "Locations"
  OPTICSFilter_filter :: "real \<Rightarrow> 32 word \<Rightarrow> real \<Rightarrow> seed \<Rightarrow> Locations \<Rightarrow> Locations"
  importSeacableLandingPoints :: "Locations \<Rightarrow> Locations"
  importSubmarineCableEdgesWaypoints :: "Locations \<Rightarrow> Locations"
  DelaunayGraphCreator_create :: "Locations \<Rightarrow> 'g"
  filterBetaSkeletonEdges :: "'g \<Rightarrow> 'g"
  filterByLength :: "'g \<Rightarrow> 'g"
  importSubmarineCableEdges :: "Locations \<Rightarrow> 'g \<Rightarrow> 'g"
  prune :: "'g \<Rightarrow> 'g"
  ofstream_good :: "string \<Rightarrow> bool"
  newSimulationTopology :: "'g \<Rightarrow> 's"
  addNode :: "SimulationNode \<Rightarrow> 'g \<times> 's \<Rightarrow> 'g \<times> 's"
  parseSimNodes :: "string \<Rightarrow> SimulationNode list option"

text \<open>One event per call to a collaborator, and one for the identifier loop.\<close>

datatype event =
    EvImportCities seed
  | EvImportCitiesFromFile
  | EvOPTICSFilter real "32 word" real seed
  | EvImportSeacableLandingPoints
  | EvImportSubmarineCableEdgesWaypoints
  | EvResetNodeIds
  | EvDelaunayCreate
  | EvKMLWrite string
  | EvFilterBetaSkeletonEdges
  | EvFilterByLength
  | EvGetHighestDegreeNodes nat bool
  | EvImportSubmarineCableEdges
  | EvPrune
  | EvWriteNodes string
  | EvWriteEdges string
  | EvNewSimulationTopology
  | EvAddNode SimulationNode
  | EvCreateJSON
  | EvJSONWrite bool string

datatype abort = AssertionFailed string

text \<open>
  The state while only the location store exists, the state once the base topology has been
  built, and the state once the simulation topology has been built.
\<close>

record loc_state =
  locations :: Locations
  trace :: "event list"

record 'g topo_state = loc_state +
  baseTopo :: 'g

record ('g, 's) sim_state = "'g topo_state" +
  simTopo :: 's

type_synonym 'a result = "(abort \<times> loc_state) + 'a"

definition and_then :: "'a result \<Rightarrow> ('a \<Rightarrow> 'b result) \<Rightarrow> 'b result" where
  "and_then r f = (case r of Inl e \<Rightarrow> Inl e | Inr a \<Rightarrow> f a)"

definition assert_failed :: "string \<Rightarrow> ('z loc_state_scheme) \<Rightarrow> 'a result" where
  "assert_failed expr st = Inl (AssertionFailed expr, \<lparr>locations = locations st, trace = trace st\<rparr>)"

definition log :: "event \<Rightarrow> event list \<Rightarrow> event list" where
  "log e tr = tr @ [e]"

subsection \<open>Arithmetic on doubles\<close>

text \<open>
  A \<^verbatim>\<open>double\<close> is an IEEE 754 binary64 number: a significand of 53 bits and an exponent
  from -1022 to 1023, with the subnormal numbers below $2^{-1022}$ spaced $2^{-1074}$ apart.
  \<open>double_exponent x\<close> is the exponent of the binade of \<open>x\<close>, found by counting up from
  the lowest one; \<open>round_double x\<close> is the double nearest to \<open>x\<close>, the one with the even
  significand when two are equally near. A decimal literal denotes the double nearest to
  it, and a quotient or product of doubles is the exact one, rounded. The driver divides by
  the Earth radius and multiplies by 0.8 only, so no result leaves the range of the finite
  doubles.
\<close>

primrec binade :: "nat \<Rightarrow> int \<Rightarrow> real \<Rightarrow> int" where
  "binade 0 e a = e"
| "binade (Suc k) e a = (if 2 powi (e + 1) \<le> a then binade k (e + 1) a else e)"

definition double_exponent :: "real \<Rightarrow> int" where
  "double_exponent x = binade 2045 (- 1022) \<bar>x\<bar>"

definition round_half_even :: "real \<Rightarrow> int" where
  "round_half_even r =
     (let n = \<lfloor>r\<rfloor>
      in if r - of_int n < 1 / 2 then n
         else if 1 / 2 < r - of_int n then n + 1
         else if even n then n else n + 1)"

definition round_double :: "real \<Rightarrow> real" where
  "round_double x =
     (let ulp = 2 powi (double_exponent x - 52)
      in of_int (round_half_even (x / ulp)) * ulp)"

definition double_div :: "real \<Rightarrow> real \<Rightarrow> real" where
  "double_div x y = round_double (x / y)"

definition double_mul :: "real \<Rightarrow> real \<Rightarrow> real" where
  "double_mul x y = round_double (x * y)"

text \<open>Line 56.\<close>

definition EARTH_RADIUS_KM :: real where
  "EARTH_RADIUS_KM = round_double 6371.000785"

subsection \<open>The blocks of \<^verbatim>\<open>main\<close>, in source order\<close>

text \<open>Lines 67 to 73: read the city positions.\<close>

definition import_cities_stage :: "('g, 's) env \<Rightarrow> Config \<Rightarrow> CMDArgs \<Rightarrow> loc_state" where
  "import_cities_stage e config args =
     (if debug_enable config = False
      then \<lparr>locations = importCities e (getSeed args), trace = [EvImportCities (getSeed args)]\<rparr>
      else \<lparr>locations = importCitiesFromFile e, trace = [EvImportCitiesFromFile]\<rparr>)"

text \<open>
  Lines 79 to 88 and 90 to 99: one OPTICS pass. The two passes differ only in the
  configuration keys they read. The assertions are on \<^verbatim>\<open>minPts\<close> and on
  \<^verbatim>\<open>maxClusterDistance\<close>; the radius \<^verbatim>\<open>eps\<close> and the fourth argument
  \<^verbatim>\<open>0.8 * eps\<close> of the filter are computed in doubles afterwards.
\<close>

definition cluster_eps :: "real \<Rightarrow> real" where
  "cluster_eps maxClusterDistance = double_div maxClusterDistance EARTH_RADIUS_KM"

definition cluster_eps' :: "real \<Rightarrow> real" where
  "cluster_eps' eps = double_mul (round_double 0.8) eps"

definition optics_pass ::
  "('g, 's) env \<Rightarrow> string \<Rightarrow> 32 word \<Rightarrow> real \<Rightarrow> seed \<Rightarrow> loc_state \<Rightarrow> loc_state result" where
  "optics_pass e name minPts maxClusterDistance sd st =
     (if \<not> (minPts > 0) then assert_failed (name @ ''_minPts > 0'') st
      else if \<not> (maxClusterDistance > 0) then assert_failed (name @ ''_maxClusterDistance > 0.0'') st
      else
        let eps = cluster_eps maxClusterDistance
        in Inr (st\<lparr>locations := OPTICSFilter_filter e eps minPts (cluster_eps' eps) sd (locations st),
                   trace := log (EvOPTICSFilter eps minPts (cluster_eps' eps) sd) (trace st)\<rparr>))"

definition neighbour_cluster_stage ::
  "('g, 's) env \<Rightarrow> Config \<Rightarrow> CMDArgs \<Rightarrow> loc_state \<Rightarrow> loc_state result" where
  "neighbour_cluster_stage e config args st =
     optics_pass e ''neighbourCluster'' (neighbourCluster_minPts config)
       (neighbourCluster_maxClusterDistance config) (getSeed args) st"

definition metropolis_cluster_stage ::
  "('g, 's) env \<Rightarrow> Config \<Rightarrow> CMDArgs \<Rightarrow> loc_state \<Rightarrow> loc_state result" where
  "metropolis_cluster_stage e config args st =
     optics_pass e ''metropolisCluster'' (metropolisCluster_minPts config)
       (metropolisCluster_maxClusterDistance config) (getSeed args) st"

text \<open>Lines 102 and 103: the cable landing points and waypoints join the store.\<close>

definition import_cable_nodes_stage :: "('g, 's) env \<Rightarrow> loc_state \<Rightarrow> loc_state" where
  "import_cable_nodes_stage e st =
     (let st1 = st\<lparr>locations := importSeacableLandingPoints e (locations st),
                    trace := log EvImportSeacableLandingPoints (trace st)\<rparr>
      in st1\<lparr>locations := importSubmarineCableEdgesWaypoints e (locations st1),
              trace := log EvImportSubmarineCableEdgesWaypoints (trace st1)\<rparr>)"

text \<open>
  Lines 106 to 110: the loop over the store. Each \<^verbatim>\<open>node\<close> is a pointer, and
  \<^verbatim>\<open>setId\<close> writes to the object behind it. \<^verbatim>\<open>nodeId\<close> is an \<^verbatim>\<open>int\<close>; the
  increment is the 32-bit one, which wraps where C++ leaves the overflow of a signed
  integer undefined.
\<close>

fun setId_loop ::
  "Location_Ptr list \<Rightarrow> 32 word \<Rightarrow> (Location_Ptr \<Rightarrow> Location) \<Rightarrow> (Location_Ptr \<Rightarrow> Location)" where
  "setId_loop [] nodeId objs = objs"
| "setId_loop (node # rest) nodeId objs =
     setId_loop rest (nodeId + 1) (objs(node := (objs node)\<lparr>loc_id := nodeId\<rparr>))"

definition reset_node_ids :: "Locations \<Rightarrow> Locations" where
  "reset_node_ids locs = locs\<lparr>objects := setId_loop (entries locs) 0 (objects locs)\<rparr>"

definition reset_node_ids_stage :: "loc_state \<Rightarrow> loc_state" where
  "reset_node_ids_stage st =
     st\<lparr>locations := reset_node_ids (locations st), trace := log EvResetNodeIds (trace st)\<rparr>"

text \<open>Lines 116 and 117 (and 153): the triangulation becomes the base topology.\<close>

definition delaunay_stage :: "('g, 's) env \<Rightarrow> loc_state \<Rightarrow> 'g topo_state" where
  "delaunay_stage e st =
     \<lparr>locations = locations st, trace = log EvDelaunayCreate (trace st),
      baseTopo = DelaunayGraphCreator_create e (locations st)\<rparr>"

text \<open>Lines 139 to 147 and 183 to 191: the KML writer reads the topology.\<close>

definition kml_stage :: "CMDArgs \<Rightarrow> string \<Rightarrow> 'g topo_state \<Rightarrow> 'g topo_state" where
  "kml_stage args file st =
     (if kmlOutputEnabled args then st\<lparr>trace := log (EvKMLWrite file) (trace st)\<rparr> else st)"

text \<open>Lines 153 to 155.\<close>

definition beta_skeleton_stage :: "('g, 's) env \<Rightarrow> 'g topo_state \<Rightarrow> 'g topo_state" where
  "beta_skeleton_stage e st =
     st\<lparr>baseTopo := filterBetaSkeletonEdges e (baseTopo st),
        trace := log EvFilterBetaSkeletonEdges (trace st)\<rparr>"

text \<open>Lines 160 to 164.\<close>

definition density_filter_stage ::
  "('g, 's) env \<Rightarrow> Config \<Rightarrow> 'g topo_state \<Rightarrow> 'g topo_state" where
  "density_filter_stage e config st =
     (let enableLengthFilter = lengthFilter_enable config
      in if enableLengthFilter = True
         then st\<lparr>baseTopo := filterByLength e (baseTopo st),
                 trace := log EvFilterByLength (trace st)\<rparr>
         else st)"

text \<open>Lines 171 and 172: two queries whose results are not used.\<close>

definition degree_debug_stage :: "'g topo_state \<Rightarrow> 'g topo_state" where
  "degree_debug_stage st =
     st\<lparr>trace := log (EvGetHighestDegreeNodes 2 True)
                   (log (EvGetHighestDegreeNodes 2 False) (trace st))\<rparr>"

text \<open>Line 174.\<close>

definition cable_edges_stage :: "('g, 's) env \<Rightarrow> 'g topo_state \<Rightarrow> 'g topo_state" where
  "cable_edges_stage e st =
     st\<lparr>baseTopo := importSubmarineCableEdges e (locations st) (baseTopo st),
        trace := log EvImportSubmarineCableEdges (trace st)\<rparr>"

text \<open>Line 177.\<close>

definition prune_stage :: "('g, 's) env \<Rightarrow> 'g topo_state \<Rightarrow> 'g topo_state" where
  "prune_stage e st = st\<lparr>baseTopo := prune e (baseTopo st), trace := log EvPrune (trace st)\<rparr>"

text \<open>Lines 197 to 211.\<close>

definition graph_output_stage ::
  "('g, 's) env \<Rightarrow> Config \<Rightarrow> CMDArgs \<Rightarrow> 'g topo_state \<Rightarrow> 'g topo_state result" where
  "graph_output_stage e config args st =
     (if graphOutputEnabled args then
        let nodeFileName = simple_nodeFile config
        in if \<not> ofstream_good e nodeFileName then assert_failed ''nodeFile.good()'' st
           else
             let edgeFileName = simple_edgeFile config
             in if \<not> ofstream_good e edgeFileName then assert_failed ''edgeFile.good()'' st
                else Inr (st\<lparr>trace := log (EvWriteEdges edgeFileName)
                                          (log (EvWriteNodes nodeFileName) (trace st))\<rparr>)
      else Inr st)"

text \<open>
  Lines 217 to 239: the simulation topology and the nodes of the JSON file. One call of
  \<^verbatim>\<open>simTopo->addNode\<close> is \<open>addNode_step\<close>. The loop of line 231 runs an \<^verbatim>\<open>int i\<close> from
  0 while it is below \<^verbatim>\<open>static_cast<int>(nodes.size())\<close>, the \<^verbatim>\<open>unsigned int\<close> size
  read as an \<^verbatim>\<open>int\<close>; \<open>addNode_loop e n i rest st\<close> is the loop at index \<open>i\<close>, with
  \<open>rest\<close> the entries of \<^verbatim>\<open>nodes\<close> from \<^verbatim>\<open>nodes[i]\<close> on.
\<close>

definition addNode_step ::
  "('g, 's) env \<Rightarrow> SimulationNode \<Rightarrow> ('g, 's) sim_state \<Rightarrow> ('g, 's) sim_state" where
  "addNode_step e simNode st =
     (case addNode e simNode (baseTopo st, simTopo st) of
        (g, s) \<Rightarrow> st\<lparr>baseTopo := g, simTopo := s, trace := log (EvAddNode simNode) (trace st)\<rparr>)"

primrec addNode_loop ::
  "('g, 's) env \<Rightarrow> 32 word \<Rightarrow> 32 word \<Rightarrow> SimulationNode list \<Rightarrow> ('g, 's) sim_state
     \<Rightarrow> ('g, 's) sim_state" where
  "addNode_loop e n i [] st = st"
| "addNode_loop e n i (node # rest) st =
     (if sint i < sint n then addNode_loop e n (i + 1) rest (addNode_step e node st) else st)"

definition simulation_nodes_stage ::
  "('g, 's) env \<Rightarrow> CMDArgs \<Rightarrow> 'g topo_state \<Rightarrow> ('g, 's) sim_state result" where
  "simulation_nodes_stage e args st =
     (let st1 = \<lparr>locations = locations st, trace = log EvNewSimulationTopology (trace st),
                 baseTopo = baseTopo st, simTopo = newSimulationTopology e (baseTopo st)\<rparr>
      in if length (simNodesJSONFile args) > 0 then
           (case parseSimNodes e (simNodesJSONFile args) of
              None \<Rightarrow> assert_failed ''parsed == true'' st1
            | Some nodes \<Rightarrow> Inr (addNode_loop e (word_of_nat (length nodes)) 0 nodes st1))
         else Inr st1)"

text \<open>Lines 244 to 268.\<close>

definition json_file_name :: "string \<Rightarrow> string \<Rightarrow> string" where
  "json_file_name jsonFileNameCLI jsonFileNameConfig =
     (if length jsonFileNameCLI > 0 then jsonFileNameCLI else jsonFileNameConfig)"

definition json_output_stage ::
  "Config \<Rightarrow> CMDArgs \<Rightarrow> ('g, 's) sim_state \<Rightarrow> ('g, 's) sim_state" where
  "json_output_stage config args st =
     (if jsonOutputEnabled args then
        let jsonFileName = json_file_name (jsonOutputFile args) (json_filename config)
        in st\<lparr>trace := log (EvJSONWrite (json_pretty_print config) jsonFileName)
                          (log EvCreateJSON (trace st))\<rparr>
      else st)"

subsection \<open>\<^verbatim>\<open>main\<close>\<close>

definition build_topology ::
  "('g, 's) env \<Rightarrow> Config \<Rightarrow> CMDArgs \<Rightarrow> loc_state \<Rightarrow> 'g topo_state" where
  "build_topology e config args st =
     kml_stage args (kml_gabrielFile config)
      (prune_stage e
        (cable_edges_stage e
          (degree_debug_stage
            (density_filter_stage e config
              (beta_skeleton_stage e
                (kml_stage args (kml_delaunayFile config)
                  (delaunay_stage e
                    (reset_node_ids_stage
                      (import_cable_nodes_stage e st)))))))))"

definition main :: "('g, 's) env \<Rightarrow> Config \<Rightarrow> CMDArgs \<Rightarrow> ('g, 's) sim_state result" where
  "main e config args =
     and_then (neighbour_cluster_stage e config args (import_cities_stage e config args)) (\<lambda>st1.
     and_then (metropolis_cluster_stage e config args st1) (\<lambda>st2.
     and_then (graph_output_stage e config args (build_topology e config args st2)) (\<lambda>st3.
     and_then (simulation_nodes_stage e args st3) (\<lambda>st4.
     Inr (json_output_stage config args st4)))))"

text \<open>What a run leaves behind, whether it ended in \<^verbatim>\<open>EXIT_SUCCESS\<close> or in an abort.\<close>

definition result_trace :: "('z loc_state_scheme) result \<Rightarrow> event list" where
  "result_trace r = (case r of Inl (a, st) \<Rightarrow> trace st | Inr st \<Rightarrow> trace st)"

definition result_locations :: "('z loc_state_scheme) result \<Rightarrow> Locations" where
  "result_locations r = (case r of Inl (a, st) \<Rightarrow> locations st | Inr st \<Rightarrow> locations st)"

definition aborted :: "'a result \<Rightarrow> bool" where
  "aborted r = (case r of Inl e \<Rightarrow> True | Inr a \<Rightarrow> False)"


subsection \<open>Reading a trace\<close>

definition is_OPTICSFilter :: "event \<Rightarrow> bool" where
  "is_OPTICSFilter ev = (case ev of EvOPTICSFilter eps minPts eps' sd \<Rightarrow> True | _ \<Rightarrow> False)"

definition is_AddNode :: "event \<Rightarrow> bool" where
  "is_AddNode ev = (case ev of EvAddNode n \<Rightarrow> True | _ \<Rightarrow> False)"

definition is_JSONWrite :: "event \<Rightarrow> bool" where
  "is_JSONWrite ev = (case ev of EvJSONWrite p f \<Rightarrow> True | _ \<Rightarrow> False)"

text \<open>The calls that put nodes into the location store.\<close>

definition is_node_source :: "event \<Rightarrow> bool" where
  "is_node_source ev =
     (case ev of EvImportCities sd \<Rightarrow> True | EvImportCitiesFromFile \<Rightarrow> True
      | EvOPTICSFilter eps minPts eps' sd \<Rightarrow> True | EvImportSeacableLandingPoints \<Rightarrow> True
      | EvImportSubmarineCableEdgesWaypoints \<Rightarrow> True | _ \<Rightarrow> False)"

definition is_cable_node_import :: "event \<Rightarrow> bool" where
  "is_cable_node_import ev =
     (ev = EvImportSeacableLandingPoints \<or> ev = EvImportSubmarineCableEdgesWaypoints)"

text \<open>The triangulation and the two edge filters.\<close>

definition is_geometric_stage :: "event \<Rightarrow> bool" where
  "is_geometric_stage ev =
     (ev = EvDelaunayCreate \<or> ev = EvFilterBetaSkeletonEdges \<or> ev = EvFilterByLength)"

text \<open>The calls made after the base topology is final.\<close>

definition is_output_event :: "event \<Rightarrow> bool" where
  "is_output_event ev =
     (case ev of EvWriteNodes f \<Rightarrow> True | EvWriteEdges f \<Rightarrow> True | EvNewSimulationTopology \<Rightarrow> True
      | EvAddNode n \<Rightarrow> True | EvCreateJSON \<Rightarrow> True | EvJSONWrite p f \<Rightarrow> True | _ \<Rightarrow> False)"

text \<open>
  \<open>never_after P Q tr\<close>: from the first \<open>Q\<close> event of the trace on, no \<open>P\<close> event
  occurs. Every \<open>P\<close> event of the trace, if there is one, is then strictly before every
  \<open>Q\<close> event.
\<close>

definition never_after :: "(event \<Rightarrow> bool) \<Rightarrow> (event \<Rightarrow> bool) \<Rightarrow> event list \<Rightarrow> bool" where
  "never_after P Q tr = (\<not> list_ex P (dropWhile (\<lambda>ev. \<not> Q ev) tr))"

definition occurrences :: "event \<Rightarrow> event list \<Rightarrow> nat" where
  "occurrences ev tr = length (filter (\<lambda>x. x = ev) tr)"

text \<open>The four assertions of lines 80, 83, 91 and 94 hold.\<close>

definition cluster_config_ok :: "Config \<Rightarrow> bool" where
  "cluster_config_ok config =
     (0 < neighbourCluster_minPts config \<and> 0 < neighbourCluster_maxClusterDistance config \<and>
      0 < metropolisCluster_minPts config \<and> 0 < metropolisCluster_maxClusterDistance config)"

definition import_event :: "Config \<Rightarrow> CMDArgs \<Rightarrow> event" where
  "import_event config args =
     (if debug_enable config = False then EvImportCities (getSeed args) else EvImportCitiesFromFile)"

definition optics_event :: "32 word \<Rightarrow> real \<Rightarrow> seed \<Rightarrow> event" where
  "optics_event minPts d sd =
     EvOPTICSFilter (cluster_eps d) minPts (cluster_eps' (cluster_eps d)) sd"

definition neighbour_event :: "Config \<Rightarrow> CMDArgs \<Rightarrow> event" where
  "neighbour_event config args =
     optics_event (neighbourCluster_minPts config) (neighbourCluster_maxClusterDistance config)
       (getSeed args)"

definition metropolis_event :: "Config \<Rightarrow> CMDArgs \<Rightarrow> event" where
  "metropolis_event config args =
     optics_event (metropolisCluster_minPts config) (metropolisCluster_maxClusterDistance config)
       (getSeed args)"

text \<open>The calls of a run from the city import to the second KML output.\<close>

definition pipeline_trace :: "Config \<Rightarrow> CMDArgs \<Rightarrow> event list" where
  "pipeline_trace config args =
     [import_event config args, neighbour_event config args, metropolis_event config args,
      EvImportSeacableLandingPoints, EvImportSubmarineCableEdgesWaypoints,
      EvResetNodeIds, EvDelaunayCreate]
     @ (if kmlOutputEnabled args then [EvKMLWrite (kml_delaunayFile config)] else [])
     @ [EvFilterBetaSkeletonEdges]
     @ (if lengthFilter_enable config then [EvFilterByLength] else [])
     @ [EvGetHighestDegreeNodes 2 False, EvGetHighestDegreeNodes 2 True,
        EvImportSubmarineCableEdges, EvPrune]
     @ (if kmlOutputEnabled args then [EvKMLWrite (kml_gabrielFile config)] else [])"

text \<open>The location store after both OPTICS passes, and after the cable nodes joined it.\<close>

definition clustered_locations :: "('g, 's) env \<Rightarrow> Config \<Rightarrow> CMDArgs \<Rightarrow> Locations" where
  "clustered_locations e config args =
     OPTICSFilter_filter e (cluster_eps (metropolisCluster_maxClusterDistance config))
       (metropolisCluster_minPts config)
       (cluster_eps' (cluster_eps (metropolisCluster_maxClusterDistance config))) (getSeed args)
       (OPTICSFilter_filter e (cluster_eps (neighbourCluster_maxClusterDistance config))
          (neighbourCluster_minPts config)
          (cluster_eps' (cluster_eps (neighbourCluster_maxClusterDistance config))) (getSeed args)
          (locations (import_cities_stage e config args)))"

definition merged_locations :: "('g, 's) env \<Rightarrow> Config \<Rightarrow> CMDArgs \<Rightarrow> Locations" where
  "merged_locations e config args =
     importSubmarineCableEdgesWaypoints e
       (importSeacableLandingPoints e (clustered_locations e config args))"

definition clustered_state :: "('g, 's) env \<Rightarrow> Config \<Rightarrow> CMDArgs \<Rightarrow> loc_state" where
  "clustered_state e config args =
     \<lparr>locations = clustered_locations e config args,
      trace = [import_event config args, neighbour_event config args,
               metropolis_event config args]\<rparr>"

text \<open>
  The base topology after the pruner: the triangulation of the numbered store, filtered,
  with the cable edges inserted, pruned.
\<close>

definition pruned_topology :: "('g, 's) env \<Rightarrow> Config \<Rightarrow> CMDArgs \<Rightarrow> 'g" where
  "pruned_topology e config args =
     prune e
       (importSubmarineCableEdges e (reset_node_ids (merged_locations e config args))
          ((if lengthFilter_enable config then filterByLength e else (\<lambda>g. g))
             (filterBetaSkeletonEdges e
                (DelaunayGraphCreator_create e (reset_node_ids (merged_locations e config args))))))"

text \<open>The part of \<^verbatim>\<open>main\<close> that follows the second KML output.\<close>

definition output_tail ::
  "('g, 's) env \<Rightarrow> Config \<Rightarrow> CMDArgs \<Rightarrow> 'g topo_state \<Rightarrow> ('g, 's) sim_state result" where
  "output_tail e config args st =
     and_then (graph_output_stage e config args st) (\<lambda>st3.
     and_then (simulation_nodes_stage e args st3) (\<lambda>st4.
     Inr (json_output_stage config args st4)))"

text \<open>The simulation nodes a run reads: none without a file name.\<close>

definition sim_nodes_read :: "('g, 's) env \<Rightarrow> CMDArgs \<Rightarrow> SimulationNode list" where
  "sim_nodes_read e args =
     (if length (simNodesJSONFile args) > 0
      then (case parseSimNodes e (simNodesJSONFile args) of None \<Rightarrow> [] | Some nodes \<Rightarrow> nodes)
      else [])"

text \<open>
  The entries of \<^verbatim>\<open>nodes\<close> the loop of line 231 reaches from index \<open>i\<close> on, and the
  simulation nodes a run adds.
\<close>

primrec loop_nodes :: "32 word \<Rightarrow> 32 word \<Rightarrow> SimulationNode list \<Rightarrow> SimulationNode list" where
  "loop_nodes n i [] = []"
| "loop_nodes n i (node # rest) =
     (if sint i < sint n then node # loop_nodes n (i + 1) rest else [])"

definition sim_nodes_added :: "('g, 's) env \<Rightarrow> CMDArgs \<Rightarrow> SimulationNode list" where
  "sim_nodes_added e args =
     loop_nodes (word_of_nat (length (sim_nodes_read e args))) 0 (sim_nodes_read e args)"

text \<open>
  The identifiers of the stored locations in iteration order, as words and read as the
  signed \<^verbatim>\<open>int\<close>s they are.
\<close>

definition stored_ids :: "Locations \<Rightarrow> 32 word list" where
  "stored_ids locs = map (\<lambda>node. loc_id (objects locs node)) (entries locs)"

definition node_ids :: "Locations \<Rightarrow> int list" where
  "node_ids locs = map sint (stored_ids locs)"

subsection \<open>A small run\<close>

text \<open>
  An environment over edge lists, for evaluating the driver: three sampled cities, a
  clusterer that keeps every point, one landing point, one waypoint, a triangulation that
  joins each stored location to the next one by their identifiers, filters that drop the
  last edge, one cable edge, a pruner that drops the first edge, and a JSON file with one
  simulation node, which the simulation topology keeps. A new location is a new object at
  a fresh address.
\<close>

definition city :: "real \<Rightarrow> real \<Rightarrow> Location" where
  "city la lo = \<lparr>loc_id = 7, latitude = la, longitude = lo\<rparr>"

definition push_location :: "Location \<Rightarrow> Locations \<Rightarrow> Locations" where
  "push_location l locs =
     \<lparr>entries = entries locs @ [length (entries locs)],
      objects = (objects locs)(length (entries locs) := l)\<rparr>"

definition demo_cities :: Locations where
  "demo_cities =
     push_location (city 50.1 8.7) (push_location (city 48.1 11.6) (push_location (city 52.5 13.4)
       \<lparr>entries = [], objects = (\<lambda>p. city 0 0)\<rparr>))"

definition chain :: "nat list \<Rightarrow> (nat \<times> nat) list" where
  "chain ids = zip (butlast ids) (tl ids)"

definition demo_env :: "((nat \<times> nat) list, SimulationNode list) env" where
  "demo_env =
     \<lparr>importCities = (\<lambda>sd. demo_cities),
      importCitiesFromFile = demo_cities,
      OPTICSFilter_filter = (\<lambda>eps minPts eps' sd locs. locs),
      importSeacableLandingPoints = push_location (city 53.5 8.1),
      importSubmarineCableEdgesWaypoints = push_location (city 55 5),
      DelaunayGraphCreator_create = (\<lambda>locs. chain (map unat (stored_ids locs))),
      filterBetaSkeletonEdges = (\<lambda>g. butlast g),
      filterByLength = (\<lambda>g. butlast g),
      importSubmarineCableEdges = (\<lambda>locs g. g @ [(0, 4)]),
      prune = (\<lambda>g. tl g),
      ofstream_good = (\<lambda>file. True),
      newSimulationTopology = (\<lambda>g. []),
      addNode = (\<lambda>n (g, s). (g, s @ [n])),
      parseSimNodes = (\<lambda>file. Some [\<lparr>sim_id = 100, sim_latitude = 49, sim_longitude = 8\<rparr>])\<rparr>"

definition demo_config :: Config where
  "demo_config =
     \<lparr>debug_enable = False,
      neighbourCluster_minPts = 2, neighbourCluster_maxClusterDistance = 50,
      metropolisCluster_minPts = 5, metropolisCluster_maxClusterDistance = 200,
      lengthFilter_enable = False,
      kml_delaunayFile = ''delaunay.kml'', kml_gabrielFile = ''gabriel.kml'',
      simple_nodeFile = ''nodes.txt'', simple_edgeFile = ''edges.txt'',
      json_filename = ''graph.json'', json_pretty_print = True\<rparr>"

definition demo_args :: CMDArgs where
  "demo_args =
     \<lparr>getSeed = 42, kmlOutputEnabled = False, graphOutputEnabled = True,
      simNodesJSONFile = ''sim.json'', jsonOutputEnabled = True, jsonOutputFile = ''out.json''\<rparr>"

definition demo_merged :: Locations where
  "demo_merged = push_location (city 55 5) (push_location (city 53.5 8.1) demo_cities)"

text \<open>The state the small run ends in.\<close>

definition demo_final :: "((nat \<times> nat) list, SimulationNode list) sim_state" where
  "demo_final = projr (main demo_env demo_config demo_args)"

text \<open>
  A store of $2^{31} + 1$ locations: 2147483647 cities at the addresses below 2147483647,
  then the landing point and the waypoint.
\<close>

definition big_env :: "((nat \<times> nat) list, SimulationNode list) env" where
  "big_env =
     demo_env\<lparr>importCities :=
       (\<lambda>sd. \<lparr>entries = [0..<2147483647], objects = (\<lambda>p. city 0 0)\<rparr>)\<rparr>"

text \<open>The small environment with a JSON file of $2^{31}$ simulation nodes.\<close>

definition many_nodes_env :: "((nat \<times> nat) list, SimulationNode list) env" where
  "many_nodes_env =
     demo_env\<lparr>parseSimNodes :=
       (\<lambda>file. Some (replicate 2147483648 \<lparr>sim_id = 100, sim_latitude = 49, sim_longitude = 8\<rparr>))\<rparr>"

text \<open>
  Two rejected configurations, a configuration whose neighbour distance is the smallest
  positive double, and a command line without a JSON file name.
\<close>

definition bad_neighbour_config :: Config where
  "bad_neighbour_config = demo_config\<lparr>neighbourCluster_minPts := 0\<rparr>"

definition bad_metropolis_config :: Config where
  "bad_metropolis_config = demo_config\<lparr>metropolisCluster_maxClusterDistance := 0\<rparr>"

definition tiny_distance_config :: Config where
  "tiny_distance_config = demo_config\<lparr>neighbourCluster_maxClusterDistance := 1 / 2 ^ 1074\<rparr>"

definition plain_args :: CMDArgs where
  "plain_args = demo_args\<lparr>jsonOutputFile := []\<rparr>"

section \<open>The graph stages, from their contracts\<close>

text \<open>
  The classes behind the base topology are not in the driver's file. The definitions of
  this section are written from the specification of the pipeline: the graph, the two edge
  filters, the pruner, and the contract of the triangulation.
\<close>

subsection \<open>The topology graph\<close>

type_synonym point = "real \<times> real"

text \<open>
  Modelled from the spec: the TopologyGraph of the data model, whose class
  \<^verbatim>\<open>BaseTopology\<close> is not in the driver's file. It owns the nodes (identifier and
  coordinates) and the undirected weighted edges (endpoint identifiers and weight).
\<close>

record TopologyGraph =
  nodes :: "(nat \<times> point) list"
  edges :: "(nat \<times> nat \<times> real) list"

text \<open>Modelled from the spec: the identifiers of the nodes, and the coordinates of a node.\<close>

definition node_idents :: "TopologyGraph \<Rightarrow> nat list" where
  "node_idents g = map fst (nodes g)"

definition position :: "TopologyGraph \<Rightarrow> nat \<Rightarrow> point option" where
  "position g a = map_of (nodes g) a"

text \<open>
  Modelled from the spec: the invariant of the TopologyGraph (no two nodes share an
  identifier, edge endpoints are identifiers of nodes, no self-loops, no duplicate edges).
\<close>

definition wf_graph :: "TopologyGraph \<Rightarrow> bool" where
  "wf_graph g =
     (distinct (node_idents g) \<and>
      list_all (\<lambda>(u, v, w). u \<in> set (node_idents g) \<and> v \<in> set (node_idents g) \<and> u \<noteq> v)
        (edges g) \<and>
      distinct (map (\<lambda>(u, v, w). (min u v, max u v)) (edges g)))"

subsection \<open>The beta-skeleton filter\<close>

text \<open>Modelled from the spec: the distance of two points, squared.\<close>

definition dist2 :: "point \<Rightarrow> point \<Rightarrow> real" where
  "dist2 p q = (fst p - fst q)\<^sup>2 + (snd p - snd q)\<^sup>2"

text \<open>
  Modelled from the spec: the lune of the BetaSkeletonFilter (class not in the driver's
  file). The two circles of radius $\beta \cdot d(p, q) / 2$ of the lune-based beta-skeleton
  are centred at $(1 - \beta/2) p + (\beta/2) q$ and $(\beta/2) p + (1 - \beta/2) q$; a point
  lies within the lune when it lies in both discs, the circles included (the unit-square
  scenario counts corners on the circle as contained). Distances are compared squared.
\<close>

definition lune_centre :: "real \<Rightarrow> point \<Rightarrow> point \<Rightarrow> point" where
  "lune_centre \<beta> p q =
     ((1 - \<beta> / 2) * fst p + (\<beta> / 2) * fst q, (1 - \<beta> / 2) * snd p + (\<beta> / 2) * snd q)"

definition in_lune :: "real \<Rightarrow> point \<Rightarrow> point \<Rightarrow> point \<Rightarrow> bool" where
  "in_lune \<beta> p q r =
     (dist2 r (lune_centre \<beta> p q) \<le> (\<beta> / 2)\<^sup>2 * dist2 p q \<and>
      dist2 r (lune_centre \<beta> q p) \<le> (\<beta> / 2)\<^sup>2 * dist2 p q)"

text \<open>
  Modelled from the spec: the test of the BetaSkeletonFilter on one edge. The edge is
  retained only if no third node lies within its lune.
\<close>

definition beta_retains :: "real \<Rightarrow> TopologyGraph \<Rightarrow> nat \<times> nat \<times> real \<Rightarrow> bool" where
  "beta_retains \<beta> g e =
     (case e of (u, v, w) \<Rightarrow>
        (case (position g u, position g v) of
           (Some p, Some q) \<Rightarrow>
             \<not> list_ex (\<lambda>(a, r). a \<noteq> u \<and> a \<noteq> v \<and> in_lune \<beta> p q r) (nodes g)
         | _ \<Rightarrow> True))"

text \<open>
  Modelled from the spec: \<^verbatim>\<open>BetaSkeletonFilter::filterBetaSkeletonEdges\<close> (class not in
  the driver's file). Every edge is examined; the edges that fail the test are removed.
\<close>

definition BetaSkeletonFilter_filterBetaSkeletonEdges ::
  "real \<Rightarrow> TopologyGraph \<Rightarrow> TopologyGraph" where
  "BetaSkeletonFilter_filterBetaSkeletonEdges \<beta> g = g\<lparr>edges := filter (beta_retains \<beta> g) (edges g)\<rparr>"

subsection \<open>The density edge filter\<close>

text \<open>
  Modelled from the spec: \<^verbatim>\<open>PopulationDensityFilter::filterByLength\<close> (class not in the
  driver's file). For each edge the density context between its endpoints is held against
  the edge's length (its weight), and the edge is removed if the length is implausible.
  The specification fixes neither the sampling nor the plausibility rule: both are
  parameters.
\<close>

definition PopulationDensityFilter_filterByLength ::
  "(point \<Rightarrow> point \<Rightarrow> real) \<Rightarrow> (real \<Rightarrow> real \<Rightarrow> bool) \<Rightarrow> TopologyGraph \<Rightarrow> TopologyGraph" where
  "PopulationDensityFilter_filterByLength density implausible g =
     g\<lparr>edges :=
         filter (\<lambda>(u, v, w).
                   case (position g u, position g v) of
                     (Some p, Some q) \<Rightarrow> \<not> implausible (density p q) w
                   | _ \<Rightarrow> True)
           (edges g)\<rparr>"

subsection \<open>The connectivity pruner\<close>

text \<open>Modelled from the spec: two nodes are joined by an edge, in either direction.\<close>

definition adjacent :: "TopologyGraph \<Rightarrow> nat \<Rightarrow> nat \<Rightarrow> bool" where
  "adjacent g a b = list_ex (\<lambda>(u, v, w). (u = a \<and> v = b) \<or> (u = b \<and> v = a)) (edges g)"

text \<open>
  Modelled from the spec: one step of the component search, the nodes outside \<open>S\<close> that
  have a neighbour in \<open>S\<close>.
\<close>

definition frontier :: "TopologyGraph \<Rightarrow> nat list \<Rightarrow> nat list" where
  "frontier g S =
     filter (\<lambda>b. b \<notin> set S \<and> list_ex (\<lambda>a. adjacent g a b) S) (remdups (node_idents g))"

text \<open>
  Modelled from the spec: the connected components the ConnectivityPruner computes
  (\<^verbatim>\<open>BaseTopology::prune\<close> is not in the driver's file). \<open>reach g S\<close> grows \<open>S\<close> by its
  frontier until the frontier is empty.
\<close>

function reach :: "TopologyGraph \<Rightarrow> nat list \<Rightarrow> nat list" where
  "reach g S = (if frontier g S = [] then S else reach g (S @ frontier g S))"
  by pat_completeness auto
termination
proof (relation "measure (\<lambda>(g, S). card (set (node_idents g) - set S))")
  show "wf (measure (\<lambda>(g, S). card (set (node_idents g) - set S)))"
    by simp
next
  fix g :: TopologyGraph and S :: "nat list"
  assume "frontier g S \<noteq> []"
  then obtain b where b: "b \<in> set (frontier g S)"
    by (cases "frontier g S") auto
  then have "b \<in> set (node_idents g) - set S"
    and "b \<notin> set (node_idents g) - set (S @ frontier g S)"
    by (auto simp: frontier_def)
  then have "set (node_idents g) - set (S @ frontier g S) \<subset> set (node_idents g) - set S"
    by auto
  then have "card (set (node_idents g) - set (S @ frontier g S))
      < card (set (node_idents g) - set S)"
    by (simp add: psubset_card_mono)
  then show "((g, S @ frontier g S), (g, S))
      \<in> measure (\<lambda>(g, S). card (set (node_idents g) - set S))"
    by simp
qed

text \<open>Modelled from the spec: the connected component of a node.\<close>

definition component_of :: "TopologyGraph \<Rightarrow> nat \<Rightarrow> nat list" where
  "component_of g a = reach g [a]"

text \<open>
  Modelled from the spec: the choice of the single largest component by node count. The
  specification asks for a deterministic tie-break policy and leaves the policy open, so
  the policy is a parameter: \<open>policy c best\<close> says whether the component \<open>c\<close> is to
  replace the component \<open>best\<close> when both have as many nodes. The candidates are scanned
  in ascending identifier order; a component replaces the best one so far if it is
  strictly larger, or as large and preferred.
\<close>

type_synonym tie_break = "nat list \<Rightarrow> nat list \<Rightarrow> bool"

fun largest_from :: "tie_break \<Rightarrow> TopologyGraph \<Rightarrow> nat list \<Rightarrow> nat list \<Rightarrow> nat list" where
  "largest_from policy g [] best = best"
| "largest_from policy g (a # rest) best =
     (let c = component_of g a
      in largest_from policy g rest
           (if length best < length c \<or> (length best = length c \<and> policy c best)
            then c else best))"

definition largest_component :: "tie_break \<Rightarrow> TopologyGraph \<Rightarrow> nat list" where
  "largest_component policy g = largest_from policy g (sort (node_idents g)) []"

text \<open>
  Modelled from the spec: two tie-break policies. With \<open>keep_first\<close> the component
  found first stays, which in the ascending scan is the one with the lowest minimum node
  identifier (the policy the specification gives as an example); with \<open>keep_last\<close> the
  one found last replaces it.
\<close>

definition keep_first :: tie_break where
  "keep_first c best = False"

definition keep_last :: tie_break where
  "keep_last c best = True"

text \<open>
  Modelled from the spec: the ConnectivityPruner (\<^verbatim>\<open>BaseTopology::prune\<close>, not in the
  driver's file). Only the largest component is retained; all other nodes and their
  incident edges are discarded.
\<close>

definition prune_graph :: "tie_break \<Rightarrow> TopologyGraph \<Rightarrow> TopologyGraph" where
  "prune_graph policy g =
     (let keep = largest_component policy g
      in g\<lparr>nodes := filter (\<lambda>(a, p). a \<in> set keep) (nodes g),
           edges := filter (\<lambda>(u, v, w). u \<in> set keep \<and> v \<in> set keep) (edges g)\<rparr>)"

text \<open>
  Connectivity as the claims speak of it, without the algorithm: two nodes are connected
  when a path of edges joins them, and a connected component is the set of nodes connected
  to one node.
\<close>

definition edge_rel :: "TopologyGraph \<Rightarrow> (nat \<times> nat) set" where
  "edge_rel g = {(a, b). adjacent g a b}"

definition connected_to :: "TopologyGraph \<Rightarrow> nat \<Rightarrow> nat set" where
  "connected_to g a = {b. (a, b) \<in> (edge_rel g)\<^sup>*}"

definition components :: "TopologyGraph \<Rightarrow> nat set set" where
  "components g = connected_to g ` set (node_idents g)"

text \<open>A graph of five nodes in three components, two of which tie for largest.\<close>

definition islands :: TopologyGraph where
  "islands =
     \<lparr>nodes = [(3, (0, 0)), (0, (1, 0)), (1, (2, 0)), (2, (3, 0)), (4, (5, 5))],
      edges = [(2, 3, 1.5), (0, 1, 2.5)]\<rparr>"

subsection \<open>The triangulation\<close>

type_synonym triangle = "nat \<times> nat \<times> nat"

text \<open>
  Modelled from the spec: the geometric predicates behind the Triangulator's contract.
  Coordinates are read as points of the plane. \<open>orient\<close> is twice the signed area of the
  triangle \<open>a b c\<close>, positive when it turns left.
\<close>

definition orient :: "point \<Rightarrow> point \<Rightarrow> point \<Rightarrow> real" where
  "orient a b c = (fst b - fst a) * (snd c - snd a) - (snd b - snd a) * (fst c - fst a)"

text \<open>Modelled from the spec: the in-circle determinant of \<open>a b c\<close> and \<open>d\<close>.\<close>

definition in_circle_det :: "point \<Rightarrow> point \<Rightarrow> point \<Rightarrow> point \<Rightarrow> real" where
  "in_circle_det a b c d =
     (let ax = fst a - fst d; ay = snd a - snd d;
          bx = fst b - fst d; by = snd b - snd d;
          cx = fst c - fst d; cy = snd c - snd d
      in (ax\<^sup>2 + ay\<^sup>2) * (bx * cy - cx * by) - (bx\<^sup>2 + by\<^sup>2) * (ax * cy - cx * ay)
         + (cx\<^sup>2 + cy\<^sup>2) * (ax * by - bx * ay))"

text \<open>
  Modelled from the spec: \<open>d\<close> lies strictly inside the circle through \<open>a\<close>, \<open>b\<close> and
  \<open>c\<close> (a point on the circle is not inside: the unit-square scenario has a
  triangulation).
\<close>

definition inside_circumcircle :: "point \<Rightarrow> point \<Rightarrow> point \<Rightarrow> point \<Rightarrow> bool" where
  "inside_circumcircle a b c d = (0 < orient a b c * in_circle_det a b c d)"

text \<open>
  Modelled from the spec: a face of the triangulation is written with ascending node
  identifiers; its edges likewise.
\<close>

definition tri_edges :: "triangle \<Rightarrow> (nat \<times> nat) list" where
  "tri_edges t = (case t of (i, j, k) \<Rightarrow> [(i, j), (j, k), (i, k)])"

definition tri_points :: "(nat \<times> point) list \<Rightarrow> triangle \<Rightarrow> (point \<times> point \<times> point) option" where
  "tri_points ns t =
     (case t of (i, j, k) \<Rightarrow>
        (case (map_of ns i, map_of ns j, map_of ns k) of
           (Some a, Some b, Some c) \<Rightarrow> Some (a, b, c)
         | _ \<Rightarrow> None))"

definition face_ok :: "(nat \<times> point) list \<Rightarrow> triangle \<Rightarrow> bool" where
  "face_ok ns t =
     (case t of (i, j, k) \<Rightarrow>
        i < j \<and> j < k \<and>
        (case tri_points ns t of Some (a, b, c) \<Rightarrow> orient a b c \<noteq> 0 | None \<Rightarrow> False))"

definition empty_circumcircle :: "(nat \<times> point) list \<Rightarrow> triangle \<Rightarrow> bool" where
  "empty_circumcircle ns t =
     (case t of (i, j, k) \<Rightarrow>
        (case tri_points ns t of
           Some (a, b, c) \<Rightarrow>
             list_all (\<lambda>(n, d). n = i \<or> n = j \<or> n = k \<or> \<not> inside_circumcircle a b c d) ns
         | None \<Rightarrow> False))"

text \<open>
  Modelled from the spec: the line through \<open>a\<close> and \<open>b\<close> has \<open>c\<close> on one side and none of \<open>d\<close>, \<open>e\<close>, \<open>f\<close>
  strictly on that side.
\<close>

definition separates :: "point \<Rightarrow> point \<Rightarrow> point \<Rightarrow> point \<times> point \<times> point \<Rightarrow> bool" where
  "separates a b c T =
     (case T of (d, e, f) \<Rightarrow>
        orient a b c * orient a b d \<le> 0 \<and> orient a b c * orient a b e \<le> 0 \<and>
        orient a b c * orient a b f \<le> 0)"

text \<open>
  Modelled from the spec: two faces share no interior point, that is, a side of one of
  them separates them.
\<close>

definition interiors_disjoint :: "(nat \<times> point) list \<Rightarrow> triangle \<Rightarrow> triangle \<Rightarrow> bool" where
  "interiors_disjoint ns s t =
     (case (tri_points ns s, tri_points ns t) of
        (Some (a, b, c), Some (d, e, f)) \<Rightarrow>
          separates a b c (d, e, f) \<or> separates b c a (d, e, f) \<or> separates a c b (d, e, f) \<or>
          separates d e f (a, b, c) \<or> separates e f d (a, b, c) \<or> separates d f e (a, b, c)
      | _ \<Rightarrow> False)"

text \<open>
  Modelled from the spec: an edge of the convex hull, all points lie on one side of the
  line through its endpoints.
\<close>

definition hull_edge :: "(nat \<times> point) list \<Rightarrow> nat \<times> nat \<Rightarrow> bool" where
  "hull_edge ns e =
     (case e of (u, v) \<Rightarrow>
        (case (map_of ns u, map_of ns v) of
           (Some a, Some b) \<Rightarrow>
             list_all (\<lambda>(n, p). 0 \<le> orient a b p) ns \<or> list_all (\<lambda>(n, p). orient a b p \<le> 0) ns
         | _ \<Rightarrow> False))"

text \<open>
  Modelled from the spec: an edge of the outer boundary, the edge \<open>e\<close> of the face \<open>t\<close>
  belongs to no other face.
\<close>

definition boundary_edge :: "triangle list \<Rightarrow> triangle \<Rightarrow> nat \<times> nat \<Rightarrow> bool" where
  "boundary_edge ts t e = list_all (\<lambda>s. s = t \<or> e \<notin> set (tri_edges s)) ts"

text \<open>
  Modelled from the spec: the contract of the Triangulator (\<^verbatim>\<open>DelaunayGraphCreator\<close> is
  not in the driver's file), as a property of the faces it returns for the points \<open>ns\<close>:
  they are proper triangles on the points, with pairwise disjoint interiors, every point
  is a corner of one, no other point lies strictly inside a face's circumscribing circle,
  and the edges that lie on one face only (the outer boundary) are edges of the convex
  hull.
\<close>

definition delaunay_triangulation :: "(nat \<times> point) list \<Rightarrow> triangle list \<Rightarrow> bool" where
  "delaunay_triangulation ns ts =
     (ts \<noteq> [] \<and> distinct ts \<and>
      list_all (face_ok ns) ts \<and>
      list_all (empty_circumcircle ns) ts \<and>
      list_all (\<lambda>s. list_all (\<lambda>t. s = t \<or> interiors_disjoint ns s t) ts) ts \<and>
      list_all (\<lambda>t. list_all (\<lambda>e. boundary_edge ts t e \<longrightarrow> hull_edge ns e) (tri_edges t)) ts \<and>
      list_all (\<lambda>(n, p). list_ex (\<lambda>(i, j, k). n = i \<or> n = j \<or> n = k) ts) ns)"

text \<open>
  Modelled from the spec: the initial TopologyGraph the Triangulator puts out, one node per
  input point and one edge per triangulation edge. The weight of an edge is the
  great-circle distance of its endpoints, a parameter here.
\<close>

definition triangulation_graph ::
  "(point \<Rightarrow> point \<Rightarrow> real) \<Rightarrow> (nat \<times> point) list \<Rightarrow> triangle list \<Rightarrow> TopologyGraph" where
  "triangulation_graph weight ns ts =
     \<lparr>nodes = ns,
      edges = map (\<lambda>(u, v). (u, v, (case (map_of ns u, map_of ns v) of
                                       (Some p, Some q) \<Rightarrow> weight p q | _ \<Rightarrow> 0)))
                (remdups (concat (map tri_edges ts)))\<rparr>"

definition edge_pairs :: "TopologyGraph \<Rightarrow> (nat \<times> nat) list" where
  "edge_pairs g = map (\<lambda>(u, v, w). (u, v)) (edges g)"

text \<open>The unit square, its corners numbered counter-clockwise from the origin.\<close>

definition square_nodes :: "(nat \<times> point) list" where
  "square_nodes = [(0, (0, 0)), (1, (1, 0)), (2, (1, 1)), (3, (0, 1))]"

text \<open>
  An environment over topology graphs: the triangulation of the unit square along the
  diagonal from 0 to 2, the beta-skeleton filter at $\beta = 1$, and a density filter that
  finds every edge longer than 1.2 implausible.
\<close>

definition no_density :: "point \<Rightarrow> point \<Rightarrow> real" where
  "no_density p q = 0"

definition too_long :: "real \<Rightarrow> real \<Rightarrow> bool" where
  "too_long d len = (1.2 < len)"

definition square_weight :: "point \<Rightarrow> point \<Rightarrow> real" where
  "square_weight p q = (if dist2 p q = 1 then 1 else 1.5)"

definition square_cities :: Locations where
  "square_cities =
     push_location (city 0 1) (push_location (city 1 1) (push_location (city 1 0)
       (push_location (city 0 0) \<lparr>entries = [], objects = (\<lambda>p. city 0 0)\<rparr>)))"

definition square_env :: "(TopologyGraph, SimulationNode list) env" where
  "square_env =
     \<lparr>importCities = (\<lambda>sd. square_cities),
      importCitiesFromFile = square_cities,
      OPTICSFilter_filter = (\<lambda>eps minPts eps' sd locs. locs),
      importSeacableLandingPoints = (\<lambda>locs. locs),
      importSubmarineCableEdgesWaypoints = (\<lambda>locs. locs),
      DelaunayGraphCreator_create =
        (\<lambda>locs. triangulation_graph square_weight square_nodes [(0, 1, 2), (0, 2, 3)]),
      filterBetaSkeletonEdges = BetaSkeletonFilter_filterBetaSkeletonEdges 1,
      filterByLength = PopulationDensityFilter_filterByLength no_density too_long,
      importSubmarineCableEdges = (\<lambda>locs g. g),
      prune = prune_graph keep_first,
      ofstream_good = (\<lambda>file. True),
      newSimulationTopology = (\<lambda>g. []),
      addNode = (\<lambda>n (g, s). (g, s @ [n])),
      parseSimNodes = (\<lambda>file. Some [])\<rparr>"

definition square_triangulated :: "TopologyGraph topo_state" where
  "square_triangulated =
     \<lparr>locations = square_cities, trace = [EvDelaunayCreate],
      baseTopo = \<lparr>nodes = square_nodes,
                  edges = [(0, 1, 1), (1, 2, 1), (0, 2, 1.5), (2, 3, 1), (0, 3, 1)]\<rparr>\<rparr>"

section \<open>Properties of the driver\<close>

subsection \<open>The stages and their traces\<close>

lemmas stage_defs =
  and_then_def assert_failed_def log_def Let_def import_cities_stage_def
  optics_pass_def neighbour_cluster_stage_def metropolis_cluster_stage_def
  import_cable_nodes_stage_def reset_node_ids_def reset_node_ids_stage_def delaunay_stage_def
  kml_stage_def beta_skeleton_stage_def density_filter_stage_def degree_debug_stage_def
  cable_edges_stage_def prune_stage_def graph_output_stage_def addNode_step_def
  simulation_nodes_stage_def json_file_name_def json_output_stage_def build_topology_def main_def

lemma optics_pass_ok:
  "0 < minPts \<Longrightarrow> 0 < d \<Longrightarrow>
   optics_pass e name minPts d sd st =
     Inr (st\<lparr>locations := OPTICSFilter_filter e (cluster_eps d) minPts
                            (cluster_eps' (cluster_eps d)) sd (locations st),
             trace := trace st @ [optics_event minPts d sd]\<rparr>)"
  by (simp add: optics_pass_def Let_def log_def optics_event_def)

lemma optics_pass_fail:
  "minPts = 0 \<or> d \<le> 0 \<Longrightarrow>
   aborted (optics_pass e name minPts d sd st) \<and>
   result_trace (optics_pass e name minPts d sd st) = trace st \<and>
   result_locations (optics_pass e name minPts d sd st) = locations st"
  by (auto simp: optics_pass_def assert_failed_def aborted_def result_trace_def
      result_locations_def)

lemma trace_import: "trace (import_cities_stage e config args) = [import_event config args]"
  by (simp add: import_cities_stage_def import_event_def)

lemma trace_build_topology:
  "trace (build_topology e config args st) =
     trace st @ [EvImportSeacableLandingPoints, EvImportSubmarineCableEdgesWaypoints,
                 EvResetNodeIds, EvDelaunayCreate]
       @ (if kmlOutputEnabled args then [EvKMLWrite (kml_delaunayFile config)] else [])
       @ [EvFilterBetaSkeletonEdges]
       @ (if lengthFilter_enable config then [EvFilterByLength] else [])
       @ [EvGetHighestDegreeNodes 2 False, EvGetHighestDegreeNodes 2 True,
          EvImportSubmarineCableEdges, EvPrune]
       @ (if kmlOutputEnabled args then [EvKMLWrite (kml_gabrielFile config)] else [])"
  by (simp add: build_topology_def kml_stage_def prune_stage_def cable_edges_stage_def
      degree_debug_stage_def density_filter_stage_def beta_skeleton_stage_def delaunay_stage_def
      reset_node_ids_stage_def import_cable_nodes_stage_def log_def Let_def)

lemma locations_build_topology:
  "locations (build_topology e config args st) =
     reset_node_ids
       (importSubmarineCableEdgesWaypoints e (importSeacableLandingPoints e (locations st)))"
  by (simp add: build_topology_def kml_stage_def prune_stage_def cable_edges_stage_def
      degree_debug_stage_def density_filter_stage_def beta_skeleton_stage_def delaunay_stage_def
      reset_node_ids_stage_def import_cable_nodes_stage_def log_def Let_def)

lemma baseTopo_build_topology:
  "baseTopo (build_topology e config args st) =
     prune e (importSubmarineCableEdges e (locations (build_topology e config args st))
       ((if lengthFilter_enable config then filterByLength e else (\<lambda>g. g))
          (filterBetaSkeletonEdges e
             (DelaunayGraphCreator_create e (locations (build_topology e config args st))))))"
  by (simp add: build_topology_def kml_stage_def prune_stage_def cable_edges_stage_def
      degree_debug_stage_def density_filter_stage_def beta_skeleton_stage_def delaunay_stage_def
      reset_node_ids_stage_def import_cable_nodes_stage_def log_def Let_def)

lemma addNode_loop_fold:
  "addNode_loop e n i ns st = fold (addNode_step e) (loop_nodes n i ns) st"
  by (induction ns arbitrary: i st) simp_all

lemma addNode_steps_trace: "trace (fold (addNode_step e) ns st) = trace st @ map EvAddNode ns"
  by (induction ns arbitrary: st) (simp_all add: addNode_step_def log_def split: prod.splits)

lemma addNode_steps_locations: "locations (fold (addNode_step e) ns st) = locations st"
  by (induction ns arbitrary: st) (simp_all add: addNode_step_def split: prod.splits)

lemma addNode_steps_topologies:
  "(baseTopo (fold (addNode_step e) ns st), simTopo (fold (addNode_step e) ns st)) =
     fold (addNode e) ns (baseTopo st, simTopo st)"
  by (induction ns arbitrary: st) (simp_all add: addNode_step_def split: prod.splits)

lemma output_tail_trace:
  "\<exists>post. result_trace (output_tail e config args st) = trace st @ post \<and>
          list_all is_output_event post"
  by (auto simp: output_tail_def and_then_def graph_output_stage_def simulation_nodes_stage_def
      json_output_stage_def assert_failed_def result_trace_def log_def Let_def is_output_event_def
      addNode_loop_fold addNode_steps_trace list_all_iff split: option.splits)

lemma output_tail_locations:
  "result_locations (output_tail e config args st) = locations st"
  by (auto simp: output_tail_def and_then_def graph_output_stage_def simulation_nodes_stage_def
      json_output_stage_def assert_failed_def result_locations_def log_def Let_def
      addNode_loop_fold addNode_steps_locations split: option.splits)

lemma output_tail_success:
  assumes "output_tail e config args st = Inr fin"
  shows "trace fin = trace st
           @ (if graphOutputEnabled args
              then [EvWriteNodes (simple_nodeFile config), EvWriteEdges (simple_edgeFile config)]
              else [])
           @ [EvNewSimulationTopology] @ map EvAddNode (sim_nodes_added e args)
           @ (if jsonOutputEnabled args
              then [EvCreateJSON,
                    EvJSONWrite (json_pretty_print config)
                      (json_file_name (jsonOutputFile args) (json_filename config))]
              else [])"
    and "(baseTopo fin, simTopo fin) =
           fold (addNode e) (sim_nodes_added e args)
             (baseTopo st, newSimulationTopology e (baseTopo st))"
    and "locations fin = locations st"
proof -
  let ?st1 = "\<lparr>locations = locations st, trace = trace st
      @ (if graphOutputEnabled args
         then [EvWriteNodes (simple_nodeFile config), EvWriteEdges (simple_edgeFile config)]
         else []) @ [EvNewSimulationTopology],
      baseTopo = baseTopo st, simTopo = newSimulationTopology e (baseTopo st)\<rparr>"
  let ?st2 = "fold (addNode_step e) (sim_nodes_added e args) ?st1"
  from assms have fin: "fin = json_output_stage config args ?st2"
    by (auto simp: output_tail_def and_then_def graph_output_stage_def simulation_nodes_stage_def
        assert_failed_def log_def Let_def sim_nodes_read_def sim_nodes_added_def
        addNode_loop_fold split: option.splits if_splits)
  show "trace fin = trace st
           @ (if graphOutputEnabled args
              then [EvWriteNodes (simple_nodeFile config), EvWriteEdges (simple_edgeFile config)]
              else [])
           @ [EvNewSimulationTopology] @ map EvAddNode (sim_nodes_added e args)
           @ (if jsonOutputEnabled args
              then [EvCreateJSON,
                    EvJSONWrite (json_pretty_print config)
                      (json_file_name (jsonOutputFile args) (json_filename config))]
              else [])"
    by (simp add: fin json_output_stage_def Let_def log_def addNode_steps_trace)
  have "(baseTopo fin, simTopo fin) = (baseTopo ?st2, simTopo ?st2)"
    by (simp add: fin json_output_stage_def Let_def)
  then show "(baseTopo fin, simTopo fin) =
           fold (addNode e) (sim_nodes_added e args)
             (baseTopo st, newSimulationTopology e (baseTopo st))"
    by (simp only: addNode_steps_topologies) simp
  show "locations fin = locations st"
    by (simp add: fin json_output_stage_def Let_def addNode_steps_locations)
qed

lemma main_ok:
  assumes "cluster_config_ok config"
  shows "main e config args =
           output_tail e config args (build_topology e config args (clustered_state e config args))"
  using assms
  by (simp add: main_def output_tail_def cluster_config_ok_def neighbour_cluster_stage_def
      metropolis_cluster_stage_def optics_pass_ok and_then_def import_cities_stage_def
      import_event_def clustered_state_def clustered_locations_def neighbour_event_def
      metropolis_event_def)

lemma trace_pipeline:
  "trace (build_topology e config args (clustered_state e config args)) = pipeline_trace config args"
  by (simp add: trace_build_topology pipeline_trace_def clustered_state_def)

lemma main_ok_trace:
  assumes "cluster_config_ok config"
  shows "\<exists>post. result_trace (main e config args) = pipeline_trace config args @ post
            \<and> list_all is_output_event post"
  using output_tail_trace[of e config args "build_topology e config args (clustered_state e config args)"]
  by (simp add: main_ok[OF assms] trace_pipeline)

lemma main_ok_locations:
  assumes "cluster_config_ok config"
  shows "result_locations (main e config args) = reset_node_ids (merged_locations e config args)"
  by (simp add: main_ok[OF assms] output_tail_locations locations_build_topology
      merged_locations_def clustered_state_def)

lemma main_bad:
  assumes "\<not> cluster_config_ok config"
  shows "aborted (main e config args)"
    and "result_trace (main e config args) = [import_event config args] \<or>
         result_trace (main e config args) = [import_event config args, neighbour_event config args]"
  using assms
  by (auto simp: main_def cluster_config_ok_def neighbour_cluster_stage_def
      metropolis_cluster_stage_def and_then_def import_cities_stage_def import_event_def
      optics_pass_def assert_failed_def neighbour_event_def
      aborted_def result_trace_def log_def optics_event_def Let_def word_gt_0 not_less)

lemma main_success_ok: "main e config args = Inr fin \<Longrightarrow> cluster_config_ok config"
  using main_bad(1)[of config e args] by (auto simp: aborted_def)

text \<open>What a run that ends in \<^verbatim>\<open>EXIT_SUCCESS\<close> leaves behind.\<close>

lemma main_success:
  assumes "main e config args = Inr fin"
  shows "locations fin = reset_node_ids (merged_locations e config args)"
    and "(baseTopo fin, simTopo fin) =
           fold (addNode e) (sim_nodes_added e args)
             (pruned_topology e config args, newSimulationTopology e (pruned_topology e config args))"
    and "trace fin = pipeline_trace config args
           @ (if graphOutputEnabled args
              then [EvWriteNodes (simple_nodeFile config), EvWriteEdges (simple_edgeFile config)]
              else [])
           @ [EvNewSimulationTopology] @ map EvAddNode (sim_nodes_added e args)
           @ (if jsonOutputEnabled args
              then [EvCreateJSON,
                    EvJSONWrite (json_pretty_print config)
                      (json_file_name (jsonOutputFile args) (json_filename config))]
              else [])"
proof -
  let ?st = "build_topology e config args (clustered_state e config args)"
  have ok: "cluster_config_ok config"
    using assms by (rule main_success_ok)
  from assms have out: "output_tail e config args ?st = Inr fin"
    by (simp add: main_ok[OF ok])
  have locs: "locations ?st = reset_node_ids (merged_locations e config args)"
    by (simp add: locations_build_topology merged_locations_def clustered_state_def)
  have topo: "baseTopo ?st = pruned_topology e config args"
    by (simp add: baseTopo_build_topology locs pruned_topology_def)
  show "locations fin = reset_node_ids (merged_locations e config args)"
    using output_tail_success(3)[OF out] locs by simp
  show "(baseTopo fin, simTopo fin) =
           fold (addNode e) (sim_nodes_added e args)
             (pruned_topology e config args, newSimulationTopology e (pruned_topology e config args))"
    using output_tail_success(2)[OF out] topo by simp
  show "trace fin = pipeline_trace config args
           @ (if graphOutputEnabled args
              then [EvWriteNodes (simple_nodeFile config), EvWriteEdges (simple_edgeFile config)]
              else [])
           @ [EvNewSimulationTopology] @ map EvAddNode (sim_nodes_added e args)
           @ (if jsonOutputEnabled args
              then [EvCreateJSON,
                    EvJSONWrite (json_pretty_print config)
                      (json_file_name (jsonOutputFile args) (json_filename config))]
              else [])"
    using output_tail_success(1)[OF out] by (simp add: trace_pipeline)
qed

lemma output_events_exclude:
  assumes "list_all is_output_event post" and "\<And>x. P x \<Longrightarrow> \<not> is_output_event x"
  shows "\<not> list_ex P post"
  using assms by (auto simp: list_all_iff list_ex_iff)

lemma not_list_ex_filter: "\<not> list_ex P xs \<Longrightarrow> filter P xs = []"
  by (simp add: list_ex_iff filter_empty_conv)

lemma never_after_append:
  assumes "never_after P Q pre \<and> list_ex Q pre" and "\<not> list_ex P post"
  shows "never_after P Q (pre @ post)"
proof -
  from assms(1) have "\<exists>x\<in>set pre. \<not> \<not> Q x" by (simp add: list_ex_iff)
  then have "dropWhile (\<lambda>ev. \<not> Q ev) (pre @ post) = dropWhile (\<lambda>ev. \<not> Q ev) pre @ post"
    by (metis dropWhile_append1)
  with assms show ?thesis by (auto simp: never_after_def list_ex_iff)
qed

lemma never_after_absent: "\<not> list_ex Q tr \<Longrightarrow> never_after P Q tr"
proof -
  assume "\<not> list_ex Q tr"
  then have "dropWhile (\<lambda>ev. \<not> Q ev) tr = []"
    by (simp add: list_ex_iff)
  then show ?thesis by (simp add: never_after_def del: dropWhile_eq_Nil_conv)
qed

subsection \<open>The identifier loop\<close>

lemma setId_loop_other: "p \<notin> set ps \<Longrightarrow> setId_loop ps k objs p = objs p"
  by (induction ps arbitrary: k objs) simp_all

lemma loc_id_setId_loop:
  "distinct ps \<Longrightarrow> i < length ps \<Longrightarrow> loc_id (setId_loop ps k objs (ps ! i)) = k + word_of_nat i"
proof (induction ps arbitrary: k objs i)
  case Nil
  then show ?case by simp
next
  case (Cons p ps)
  show ?case
  proof (cases i)
    case 0
    with Cons.prems show ?thesis by (simp add: setId_loop_other)
  next
    case (Suc j)
    with Cons.prems have "j < length ps" and "distinct ps" by simp_all
    from Cons.IH[OF this(2,1), of "k + 1"] Suc show ?thesis by (simp add: ac_simps)
  qed
qed

lemma setId_loop_position:
  "latitude (setId_loop ps k objs p) = latitude (objs p) \<and>
   longitude (setId_loop ps k objs p) = longitude (objs p)"
  by (induction ps arbitrary: k objs) simp_all

lemma sint_small: "i < 2 ^ 31 \<Longrightarrow> sint (word_of_nat i :: 32 word) = int i"
  by (simp add: signed_of_nat signed_take_bit_int_eq_self)

lemma node_ids_reset:
  assumes "distinct (entries locs)" and "length (entries locs) < 2 ^ 31"
  shows "node_ids (reset_node_ids locs) = map int [0..<length (entries locs)]"
proof (rule nth_equalityI)
  show "length (node_ids (reset_node_ids locs)) = length (map int [0..<length (entries locs)])"
    by (simp add: node_ids_def stored_ids_def reset_node_ids_def)
next
  fix i assume "i < length (node_ids (reset_node_ids locs))"
  then have i: "i < length (entries locs)"
    by (simp add: node_ids_def stored_ids_def reset_node_ids_def)
  with assms have "i < 2 ^ 31" by simp
  then show "node_ids (reset_node_ids locs) ! i = map int [0..<length (entries locs)] ! i"
    using i
    by (simp add: node_ids_def stored_ids_def reset_node_ids_def loc_id_setId_loop[OF assms(1)]
        sint_small)
qed

lemma distinct_ids_reset:
  assumes "distinct (entries locs)" and "length (entries locs) < 2 ^ 31"
  shows "distinct (stored_ids (reset_node_ids locs))"
proof -
  have "distinct (map int [0..<length (entries locs)])"
    by (simp add: distinct_map inj_on_def)
  then have "distinct (map sint (stored_ids (reset_node_ids locs)))"
    using node_ids_reset[OF assms] by (simp add: node_ids_def)
  then show ?thesis
    using distinct_map[of sint] by blast
qed

subsection \<open>The loop over the simulation nodes\<close>

lemma sint_large:
  assumes "2 ^ 31 \<le> n" and "n < 2 ^ 32"
  shows "sint (word_of_nat n :: 32 word) < 0"
proof -
  from assms have "int n div 2147483648 = 1"
    by simp
  then have "bit (int n) 31"
    by (simp add: bit_iff_odd)
  then show ?thesis
    by (simp add: signed_of_nat signed_take_bit_negative_iff)
qed

lemma loop_nodes_all:
  "k + length ns < 2 ^ 31 \<Longrightarrow> loop_nodes (word_of_nat (k + length ns)) (word_of_nat k) ns = ns"
proof (induction ns arbitrary: k)
  case Nil
  then show ?case by simp
next
  case (Cons x xs)
  then have k: "k < 2 ^ 31" and n: "k + length (x # xs) < 2 ^ 31"
    by simp_all
  have lt: "sint (word_of_nat k :: 32 word) < sint (word_of_nat (k + length (x # xs)) :: 32 word)"
    by (simp only: sint_small[OF k] sint_small[OF n]) simp
  have "loop_nodes (word_of_nat (Suc k + length xs)) (word_of_nat (Suc k)) xs = xs"
    using Cons.prems by (intro Cons.IH) simp
  with lt show ?case by (simp add: ac_simps)
qed

lemma loop_nodes_none: "\<not> sint i < sint n \<Longrightarrow> loop_nodes n i ns = []"
  by (cases ns) simp_all

lemma sim_nodes_added_all:
  "length (sim_nodes_read e args) < 2 ^ 31 \<Longrightarrow> sim_nodes_added e args = sim_nodes_read e args"
  using loop_nodes_all[of 0 "sim_nodes_read e args"] by (simp add: sim_nodes_added_def)

lemma sim_nodes_added_none:
  assumes "2 ^ 31 \<le> length (sim_nodes_read e args)" and "length (sim_nodes_read e args) < 2 ^ 32"
  shows "sim_nodes_added e args = []"
  unfolding sim_nodes_added_def
  using sint_large[OF assms] by (intro loop_nodes_none) simp

subsection \<open>Rounding to doubles\<close>

lemma binade_stay: "a < 2 powi (e + 1) \<Longrightarrow> binade k e a = e"
  by (cases k) simp_all

lemma binade_find:
  "e0 \<le> e \<Longrightarrow> e \<le> e0 + int k \<Longrightarrow> 2 powi e \<le> a \<Longrightarrow> a < 2 powi (e + 1) \<Longrightarrow> binade k e0 a = e"
proof (induction k arbitrary: e0)
  case 0
  then show ?case by simp
next
  case (Suc k)
  show ?case
  proof (cases "e0 = e")
    case True
    with Suc.prems show ?thesis by (simp add: binade_stay)
  next
    case False
    with Suc.prems have lt: "e0 + 1 \<le> e" by simp
    then have "(2::real) powi (e0 + 1) \<le> 2 powi e"
      by (intro power_int_increasing) simp_all
    with Suc.prems have step: "2 powi (e0 + 1) \<le> a" by simp
    from Suc.IH[of "e0 + 1"] lt Suc.prems have "binade k (e0 + 1) a = e" by simp
    with step show ?thesis by simp
  qed
qed

lemma double_exponent_subnormal: "\<bar>x\<bar> < 2 powi (- 1021) \<Longrightarrow> double_exponent x = - 1022"
  by (simp add: double_exponent_def binade_stay)

lemma double_exponent_normal:
  "- 1022 \<le> e \<Longrightarrow> e \<le> 1023 \<Longrightarrow> 2 powi e \<le> \<bar>x\<bar> \<Longrightarrow> \<bar>x\<bar> < 2 powi (e + 1) \<Longrightarrow> double_exponent x = e"
  unfolding double_exponent_def by (rule binade_find) simp_all

text \<open>The double that the literal of line 56 denotes.\<close>

lemma EARTH_RADIUS_KM_value: "EARTH_RADIUS_KM = 1751247360919381 / 274877906944"
proof -
  have "double_exponent 6371.000785 = 12"
    by (rule double_exponent_normal) simp_all
  then show ?thesis
    by (simp add: EARTH_RADIUS_KM_def round_double_def round_half_even_def Let_def power_int_minus)
qed

lemma round_double_0: "round_double 0 = 0"
  by (simp add: round_double_def round_half_even_def)

text \<open>The smallest positive double, divided by the Earth radius, rounds to zero.\<close>

lemma cluster_eps_tiny: "cluster_eps (1 / 2 ^ 1074) = 0"
proof -
  let ?x = "1 / 2 ^ 1074 / EARTH_RADIUS_KM :: real"
  have small: "\<bar>?x\<bar> < 2 powi (- 1021)"
    by (simp add: EARTH_RADIUS_KM_value power_int_minus)
  have "double_exponent ?x = - 1022"
    by (rule double_exponent_subnormal[OF small])
  then show ?thesis
    by (simp add: cluster_eps_def double_div_def round_double_def round_half_even_def Let_def
        power_int_minus EARTH_RADIUS_KM_value)
qed

lemma cluster_eps'_0: "cluster_eps' 0 = 0"
  by (simp add: cluster_eps'_def double_mul_def round_double_0)
subsection \<open>Claims about the driver\<close>

text \<open>
  The identifier loop in the run. A run that the clustering assertions abort never reaches
  the loop or the triangulation. A run that passes them runs the loop exactly once: the
  city import, both clustering passes and both cable node imports have all happened by
  then and none of them happens from the loop on, and the loop is not run again from the
  triangulation on, which happens once. If the store then holds fewer than $2^{31}$
  locations, all different objects, the identifiers read in iteration order are exactly
  0, 1, ..., N - 1, and no two locations share one.
\<close>

lemma identifier_loop_once_before_triangulation:
  fixes e :: "('g, 's) env"
  shows "(\<not> cluster_config_ok config \<longrightarrow>
       occurrences EvResetNodeIds (result_trace (main e config args)) = 0 \<and>
       occurrences EvDelaunayCreate (result_trace (main e config args)) = 0) \<and>
    (cluster_config_ok config \<longrightarrow>
       occurrences EvResetNodeIds (result_trace (main e config args)) = 1 \<and>
       length (filter is_node_source (result_trace (main e config args))) = 5 \<and>
       never_after is_node_source (\<lambda>ev. ev = EvResetNodeIds) (result_trace (main e config args)) \<and>
       occurrences EvDelaunayCreate (result_trace (main e config args)) = 1 \<and>
       never_after (\<lambda>ev. ev = EvResetNodeIds) (\<lambda>ev. ev = EvDelaunayCreate)
         (result_trace (main e config args)) \<and>
       (distinct (entries (result_locations (main e config args))) \<and>
        length (entries (result_locations (main e config args))) < 2 ^ 31 \<longrightarrow>
          node_ids (result_locations (main e config args)) =
            map int [0..<length (entries (result_locations (main e config args)))] \<and>
          distinct (stored_ids (result_locations (main e config args)))))"
proof (cases "cluster_config_ok config")
  case False
  from main_bad(2)[OF False, of e args] show ?thesis
    using False
    by (auto simp: occurrences_def import_event_def neighbour_event_def optics_event_def)
next
  case True
  obtain post where tr: "result_trace (main e config args) = pipeline_trace config args @ post"
    and post: "list_all is_output_event post"
    using main_ok_trace[OF True] by blast
  have no_reset: "\<not> list_ex (\<lambda>x. x = EvResetNodeIds) post"
    by (rule output_events_exclude[OF post]) (simp add: is_output_event_def)
  have no_del: "\<not> list_ex (\<lambda>x. x = EvDelaunayCreate) post"
    by (rule output_events_exclude[OF post]) (simp add: is_output_event_def)
  have no_src: "\<not> list_ex is_node_source post"
    by (rule output_events_exclude[OF post])
       (auto simp: is_output_event_def is_node_source_def split: event.splits)
  have once: "occurrences EvResetNodeIds (result_trace (main e config args)) = 1"
    using no_reset
    by (simp add: tr occurrences_def not_list_ex_filter pipeline_trace_def import_event_def
        neighbour_event_def metropolis_event_def optics_event_def)
  have sources: "length (filter is_node_source (result_trace (main e config args))) = 5"
    using no_src
    by (simp add: tr not_list_ex_filter pipeline_trace_def import_event_def neighbour_event_def
        metropolis_event_def optics_event_def is_node_source_def)
  have src_before: "never_after is_node_source (\<lambda>ev. ev = EvResetNodeIds)
      (result_trace (main e config args))"
    unfolding tr
    by (rule never_after_append[OF _ no_src])
       (simp_all add: never_after_def pipeline_trace_def import_event_def neighbour_event_def
        metropolis_event_def optics_event_def is_node_source_def)
  have del_once: "occurrences EvDelaunayCreate (result_trace (main e config args)) = 1"
    using no_del
    by (simp add: tr occurrences_def not_list_ex_filter pipeline_trace_def import_event_def
        neighbour_event_def metropolis_event_def optics_event_def)
  have reset_before: "never_after (\<lambda>ev. ev = EvResetNodeIds) (\<lambda>ev. ev = EvDelaunayCreate)
      (result_trace (main e config args))"
    unfolding tr
    by (rule never_after_append[OF _ no_reset])
       (simp_all add: never_after_def pipeline_trace_def import_event_def neighbour_event_def
        metropolis_event_def optics_event_def)
  have same: "entries (reset_node_ids locs) = entries locs" for locs
    by (simp add: reset_node_ids_def)
  have ids: "distinct (entries (result_locations (main e config args))) \<and>
        length (entries (result_locations (main e config args))) < 2 ^ 31 \<longrightarrow>
          node_ids (result_locations (main e config args)) =
            map int [0..<length (entries (result_locations (main e config args)))] \<and>
          distinct (stored_ids (result_locations (main e config args)))"
    using node_ids_reset[of "merged_locations e config args"]
      distinct_ids_reset[of "merged_locations e config args"]
    by (simp add: main_ok_locations[OF True] same)
  from once sources src_before del_once reset_before ids True show ?thesis
    by simp
qed
lemma demo_config_ok: "cluster_config_ok demo_config"
  by (simp add: cluster_config_ok_def demo_config_def)

lemma demo_trace:
  "result_trace (main demo_env demo_config demo_args) =
     [EvImportCities 42, neighbour_event demo_config demo_args,
      metropolis_event demo_config demo_args,
      EvImportSeacableLandingPoints, EvImportSubmarineCableEdgesWaypoints, EvResetNodeIds,
      EvDelaunayCreate, EvFilterBetaSkeletonEdges, EvGetHighestDegreeNodes 2 False,
      EvGetHighestDegreeNodes 2 True, EvImportSubmarineCableEdges, EvPrune,
      EvWriteNodes ''nodes.txt'', EvWriteEdges ''edges.txt'', EvNewSimulationTopology,
      EvAddNode \<lparr>sim_id = 100, sim_latitude = 49, sim_longitude = 8\<rparr>,
      EvCreateJSON, EvJSONWrite True ''out.json'']"
  unfolding main_ok[OF demo_config_ok] output_tail_def
  by (simp add: and_then_def graph_output_stage_def addNode_step_def
      simulation_nodes_stage_def json_output_stage_def json_file_name_def result_trace_def
      trace_pipeline pipeline_trace_def import_event_def log_def Let_def
      demo_env_def demo_args_def demo_config_def)

lemma demo_run: "main demo_env demo_config demo_args = Inr demo_final"
  by (simp add: stage_defs demo_env_def demo_config_def demo_args_def demo_final_def)

lemma demo_final_trace: "trace demo_final = result_trace (main demo_env demo_config demo_args)"
  by (simp add: demo_run result_trace_def)

lemma demo_entries: "entries demo_merged = [0, 1, 2, 3, 4]"
  by (simp add: demo_merged_def demo_cities_def push_location_def)

lemma demo_locations: "merged_locations demo_env demo_config demo_args = demo_merged"
  by (simp add: merged_locations_def clustered_locations_def import_cities_stage_def
      demo_env_def demo_config_def demo_merged_def)

lemma demo_stored_ids: "stored_ids (reset_node_ids demo_merged) = [0, 1, 2, 3, 4]"
  by (simp add: stored_ids_def reset_node_ids_def demo_entries)

lemma demo_sim_nodes:
  "sim_nodes_added demo_env demo_args = [\<lparr>sim_id = 100, sim_latitude = 49, sim_longitude = 8\<rparr>]"
  by (simp add: sim_nodes_added_def sim_nodes_read_def demo_env_def demo_args_def)

lemma demo_triangulation:
  "DelaunayGraphCreator_create demo_env (reset_node_ids demo_merged) =
     [(0, 1), (1, 2), (2, 3), (3, 4)]"
  by (simp add: demo_env_def demo_stored_ids chain_def)

lemma demo_pruned: "pruned_topology demo_env demo_config demo_args = [(1, 2), (2, 3), (0, 4)]"
  unfolding pruned_topology_def demo_locations demo_triangulation
  by (simp add: demo_env_def demo_config_def)

lemma demo_final_locations: "locations demo_final = reset_node_ids demo_merged"
  using main_success(1)[OF demo_run] by (simp add: demo_locations)

lemma demo_final_topologies:
  "baseTopo demo_final = [(1, 2), (2, 3), (0, 4)]"
  "simTopo demo_final = [\<lparr>sim_id = 100, sim_latitude = 49, sim_longitude = 8\<rparr>]"
  using main_success(2)[OF demo_run]
  by (simp_all add: demo_pruned demo_sim_nodes) (simp_all add: demo_env_def)

lemma big_locations:
  "entries (merged_locations big_env demo_config demo_args) =
     [0..<2147483647] @ [2147483647, 2147483648]"
  by (simp add: merged_locations_def clustered_locations_def import_cities_stage_def
      big_env_def demo_env_def demo_config_def push_location_def)


text \<open>
  C1, at a store of $2^{31} + 1$ locations. The run passes the clustering assertions and
  runs the identifier loop once, after the five node sources and before the triangulation;
  the store holds 2147483649 entries, all different objects; and the loop leaves the last
  of them with the identifier $-2^{31}$, not with 2147483648: the identifiers are not the
  range from 0 to N. The comment of line 105 says they go from 0 to \<^verbatim>\<open>numNodes-1\<close>.
\<close>

theorem node_ids_wrap_past_int_max:
  "cluster_config_ok demo_config \<and>
   occurrences EvResetNodeIds (result_trace (main big_env demo_config demo_args)) = 1 \<and>
   distinct (entries (result_locations (main big_env demo_config demo_args))) \<and>
   length (entries (result_locations (main big_env demo_config demo_args))) = 2147483649 \<and>
   node_ids (result_locations (main big_env demo_config demo_args)) ! 2147483648 = - 2147483648"
proof -
  let ?ps = "[0..<2147483647] @ [2147483647, 2147483648 :: nat]"
  let ?m = "merged_locations big_env demo_config demo_args"
  have locs: "result_locations (main big_env demo_config demo_args) =
      ?m\<lparr>objects := setId_loop ?ps 0 (objects ?m)\<rparr>"
    by (simp add: main_ok_locations[OF demo_config_ok] reset_node_ids_def big_locations)
  have dist: "distinct ?ps"
    by simp
  have len: "length ?ps = 2147483649"
    by simp
  have last: "?ps ! 2147483648 = 2147483648"
    by (simp add: nth_append)
  have "loc_id (setId_loop ?ps 0 (objects ?m) (?ps ! 2147483648)) = 0 + word_of_nat 2147483648"
    using loc_id_setId_loop[OF dist, of 2147483648 0 "objects ?m"] by simp
  then have "sint (loc_id (setId_loop ?ps 0 (objects ?m) 2147483648)) = - 2147483648"
    by (simp only: last) simp
  then have "node_ids (?m\<lparr>objects := setId_loop ?ps 0 (objects ?m)\<rparr>) ! 2147483648 = - 2147483648"
    using last by (simp add: node_ids_def stored_ids_def big_locations nth_append)
  moreover have "occurrences EvResetNodeIds (result_trace (main big_env demo_config demo_args)) = 1"
  proof -
    obtain post where
      tr: "result_trace (main big_env demo_config demo_args) = pipeline_trace demo_config demo_args @ post"
      and post: "list_all is_output_event post"
      using main_ok_trace[OF demo_config_ok] by blast
    have "\<not> list_ex (\<lambda>x. x = EvResetNodeIds) post"
      by (rule output_events_exclude[OF post]) (simp add: is_output_event_def)
    then show ?thesis
      by (simp add: tr occurrences_def not_list_ex_filter pipeline_trace_def import_event_def
          neighbour_event_def metropolis_event_def optics_event_def)
  qed
  ultimately show ?thesis
    using locs dist len demo_config_ok by (simp add: big_locations)
qed

text \<open>
  C4. In every run, no cable node import happens from the identifier loop on or from the
  triangulation on, and neither the triangulation nor one of the two edge filters happens
  from the cable edge import on. In a run that passes the clustering assertions the landing
  points and the waypoints are imported once each, the triangulation and the beta-skeleton
  filter run once each, the density filter runs once if it is enabled and not at all
  otherwise, and the cable edges are imported once. In a run that succeeds, the store at
  the end is the clustered store after the landing point import and then the waypoint
  import, numbered by the identifier loop; the triangulation is built from exactly this
  store; the cable edges are inserted into the graph the filters have returned, and only
  the pruner and the calls of \<^verbatim>\<open>addNode\<close> see them.
\<close>

theorem cable_nodes_before_triangulation_edges_after_filters:
  fixes e :: "('g, 's) env"
  shows "never_after is_cable_node_import (\<lambda>ev. ev = EvResetNodeIds)
           (result_trace (main e config args)) \<and>
         never_after is_cable_node_import (\<lambda>ev. ev = EvDelaunayCreate)
           (result_trace (main e config args)) \<and>
         never_after is_geometric_stage (\<lambda>ev. ev = EvImportSubmarineCableEdges)
           (result_trace (main e config args)) \<and>
         (cluster_config_ok config \<longrightarrow>
            occurrences EvImportSeacableLandingPoints (result_trace (main e config args)) = 1 \<and>
            occurrences EvImportSubmarineCableEdgesWaypoints (result_trace (main e config args)) = 1 \<and>
            occurrences EvDelaunayCreate (result_trace (main e config args)) = 1 \<and>
            occurrences EvFilterBetaSkeletonEdges (result_trace (main e config args)) = 1 \<and>
            occurrences EvFilterByLength (result_trace (main e config args)) =
              (if lengthFilter_enable config then 1 else 0) \<and>
            occurrences EvImportSubmarineCableEdges (result_trace (main e config args)) = 1) \<and>
         (main e config args = Inr fin \<longrightarrow>
            locations fin =
              reset_node_ids
                (importSubmarineCableEdgesWaypoints e
                   (importSeacableLandingPoints e (clustered_locations e config args))) \<and>
            pruned_topology e config args =
              prune e (importSubmarineCableEdges e (locations fin)
                ((if lengthFilter_enable config then filterByLength e else (\<lambda>g. g))
                   (filterBetaSkeletonEdges e (DelaunayGraphCreator_create e (locations fin))))) \<and>
            (baseTopo fin, simTopo fin) =
              fold (addNode e) (sim_nodes_added e args)
                (pruned_topology e config args,
                 newSimulationTopology e (pruned_topology e config args)))"
proof (cases "cluster_config_ok config")
  case False
  have "\<not> list_ex (\<lambda>ev. ev = EvResetNodeIds) (result_trace (main e config args))"
    and "\<not> list_ex (\<lambda>ev. ev = EvDelaunayCreate) (result_trace (main e config args))"
    and "\<not> list_ex (\<lambda>ev. ev = EvImportSubmarineCableEdges) (result_trace (main e config args))"
    using main_bad(2)[OF False, of e args]
    by (auto simp: import_event_def neighbour_event_def optics_event_def split: if_splits)
  then have "never_after is_cable_node_import (\<lambda>ev. ev = EvResetNodeIds)
           (result_trace (main e config args))"
    and "never_after is_cable_node_import (\<lambda>ev. ev = EvDelaunayCreate)
           (result_trace (main e config args))"
    and "never_after is_geometric_stage (\<lambda>ev. ev = EvImportSubmarineCableEdges)
           (result_trace (main e config args))"
    by (simp_all add: never_after_absent)
  moreover have "main e config args \<noteq> Inr fin"
    using main_success_ok False by blast
  ultimately show ?thesis using False by simp
next
  case True
  obtain post where tr: "result_trace (main e config args) = pipeline_trace config args @ post"
    and post: "list_all is_output_event post"
    using main_ok_trace[OF True] by blast
  have no_cable: "\<not> list_ex is_cable_node_import post"
    by (rule output_events_exclude[OF post])
       (auto simp: is_output_event_def is_cable_node_import_def)
  have no_geo: "\<not> list_ex is_geometric_stage post"
    by (rule output_events_exclude[OF post])
       (auto simp: is_output_event_def is_geometric_stage_def)
  have no_ev: "\<not> list_ex (\<lambda>x. x = ev) post" if "\<not> is_output_event ev" for ev
    by (rule output_events_exclude[OF post]) (use that in simp)
  have nodes_ids: "never_after is_cable_node_import (\<lambda>ev. ev = EvResetNodeIds)
           (result_trace (main e config args))"
    unfolding tr
    by (rule never_after_append[OF _ no_cable])
       (simp add: never_after_def pipeline_trace_def import_event_def neighbour_event_def
        metropolis_event_def optics_event_def is_cable_node_import_def)
  have nodes_first: "never_after is_cable_node_import (\<lambda>ev. ev = EvDelaunayCreate)
           (result_trace (main e config args))"
    unfolding tr
    by (rule never_after_append[OF _ no_cable])
       (simp add: never_after_def pipeline_trace_def import_event_def neighbour_event_def
        metropolis_event_def optics_event_def is_cable_node_import_def)
  have edges_last: "never_after is_geometric_stage (\<lambda>ev. ev = EvImportSubmarineCableEdges)
           (result_trace (main e config args))"
    unfolding tr
    by (rule never_after_append[OF _ no_geo])
       (simp add: never_after_def pipeline_trace_def import_event_def neighbour_event_def
        metropolis_event_def optics_event_def is_geometric_stage_def)
  have counts:
    "occurrences EvImportSeacableLandingPoints (result_trace (main e config args)) = 1"
    "occurrences EvImportSubmarineCableEdgesWaypoints (result_trace (main e config args)) = 1"
    "occurrences EvDelaunayCreate (result_trace (main e config args)) = 1"
    "occurrences EvFilterBetaSkeletonEdges (result_trace (main e config args)) = 1"
    "occurrences EvFilterByLength (result_trace (main e config args)) =
              (if lengthFilter_enable config then 1 else 0)"
    "occurrences EvImportSubmarineCableEdges (result_trace (main e config args)) = 1"
    by (simp_all add: tr occurrences_def not_list_ex_filter[OF no_ev] is_output_event_def
        pipeline_trace_def import_event_def neighbour_event_def metropolis_event_def
        optics_event_def)
  have final: "locations fin =
              reset_node_ids
                (importSubmarineCableEdgesWaypoints e
                   (importSeacableLandingPoints e (clustered_locations e config args))) \<and>
            pruned_topology e config args =
              prune e (importSubmarineCableEdges e (locations fin)
                ((if lengthFilter_enable config then filterByLength e else (\<lambda>g. g))
                   (filterBetaSkeletonEdges e (DelaunayGraphCreator_create e (locations fin))))) \<and>
            (baseTopo fin, simTopo fin) =
              fold (addNode e) (sim_nodes_added e args)
                (pruned_topology e config args,
                 newSimulationTopology e (pruned_topology e config args))"
    if run: "main e config args = Inr fin"
  proof -
    have locs: "locations fin = reset_node_ids (merged_locations e config args)"
      by (rule main_success(1)[OF run])
    have "pruned_topology e config args =
              prune e (importSubmarineCableEdges e (locations fin)
                ((if lengthFilter_enable config then filterByLength e else (\<lambda>g. g))
                   (filterBetaSkeletonEdges e (DelaunayGraphCreator_create e (locations fin)))))"
      unfolding locs by (simp add: pruned_topology_def)
    with locs main_success(2)[OF run] show ?thesis
      by (simp add: merged_locations_def)
  qed
  from nodes_ids nodes_first edges_last counts final show ?thesis by simp
qed

theorem cable_nodes_before_triangulation_edges_after_filters_witness:
  "cluster_config_ok demo_config \<and>
   main demo_env demo_config demo_args = Inr demo_final \<and>
   never_after is_cable_node_import (\<lambda>ev. ev = EvResetNodeIds)
     (result_trace (main demo_env demo_config demo_args)) \<and>
   never_after is_cable_node_import (\<lambda>ev. ev = EvDelaunayCreate)
     (result_trace (main demo_env demo_config demo_args)) \<and>
   never_after is_geometric_stage (\<lambda>ev. ev = EvImportSubmarineCableEdges)
     (result_trace (main demo_env demo_config demo_args)) \<and>
   occurrences EvImportSeacableLandingPoints (result_trace (main demo_env demo_config demo_args)) = 1 \<and>
   occurrences EvDelaunayCreate (result_trace (main demo_env demo_config demo_args)) = 1 \<and>
   occurrences EvImportSubmarineCableEdges (result_trace (main demo_env demo_config demo_args)) = 1 \<and>
   occurrences EvFilterByLength (result_trace (main demo_env demo_config demo_args)) = 0 \<and>
   entries (clustered_locations demo_env demo_config demo_args) = [0, 1, 2] \<and>
   entries (locations demo_final) = [0, 1, 2, 3, 4] \<and>
   latitude (objects (locations demo_final) 3) = 53.5 \<and>
   latitude (objects (locations demo_final) 4) = 55 \<and>
   node_ids (locations demo_final) = [0, 1, 2, 3, 4] \<and>
   DelaunayGraphCreator_create demo_env (locations demo_final) = [(0, 1), (1, 2), (2, 3), (3, 4)] \<and>
   pruned_topology demo_env demo_config demo_args = [(1, 2), (2, 3), (0, 4)] \<and>
   baseTopo demo_final = [(1, 2), (2, 3), (0, 4)]"
proof -
  have off: "lengthFilter_enable demo_config = False"
    by (simp add: demo_config_def)
  have clustered: "entries (clustered_locations demo_env demo_config demo_args) = [0, 1, 2]"
    by (simp add: clustered_locations_def import_cities_stage_def demo_env_def demo_config_def
        demo_cities_def push_location_def)
  have merged: "importSubmarineCableEdgesWaypoints demo_env
      (importSeacableLandingPoints demo_env (clustered_locations demo_env demo_config demo_args)) =
      demo_merged"
    using demo_locations by (simp add: merged_locations_def)
  have store: "entries (reset_node_ids demo_merged) = [0, 1, 2, 3, 4]"
    "latitude (objects (reset_node_ids demo_merged) 3) = 53.5"
    "latitude (objects (reset_node_ids demo_merged) 4) = 55"
    by (simp_all add: reset_node_ids_def demo_entries setId_loop_position)
       (simp_all add: demo_merged_def demo_cities_def push_location_def city_def)
  have ids: "node_ids (reset_node_ids demo_merged) = [0, 1, 2, 3, 4]"
    by (simp add: node_ids_def demo_stored_ids)
  from cable_nodes_before_triangulation_edges_after_filters[of demo_env demo_config demo_args
      demo_final] demo_config_ok demo_run off
  have claim: "never_after is_cable_node_import (\<lambda>ev. ev = EvResetNodeIds)
     (result_trace (main demo_env demo_config demo_args)) \<and>
   never_after is_cable_node_import (\<lambda>ev. ev = EvDelaunayCreate)
     (result_trace (main demo_env demo_config demo_args)) \<and>
   never_after is_geometric_stage (\<lambda>ev. ev = EvImportSubmarineCableEdges)
     (result_trace (main demo_env demo_config demo_args)) \<and>
   occurrences EvImportSeacableLandingPoints (result_trace (main demo_env demo_config demo_args)) = 1 \<and>
   occurrences EvDelaunayCreate (result_trace (main demo_env demo_config demo_args)) = 1 \<and>
   occurrences EvImportSubmarineCableEdges (result_trace (main demo_env demo_config demo_args)) = 1 \<and>
   occurrences EvFilterByLength (result_trace (main demo_env demo_config demo_args)) = 0 \<and>
   locations demo_final = reset_node_ids demo_merged"
    unfolding merged by simp
  then have locs: "locations demo_final = reset_node_ids demo_merged"
    by blast
  from claim clustered store ids demo_triangulation demo_pruned demo_final_topologies(1)
    demo_config_ok demo_run
  show ?thesis
    unfolding locs by blast
qed
text \<open>
  C5 as stated fails: in the run of the small environment the pruner is call number 11 of
  the trace and the only simulation node is added by call number 15, after it.
\<close>

theorem simulation_nodes_before_prune_counterexample:
  "\<not> never_after is_AddNode (\<lambda>ev. ev = EvPrune)
       (result_trace (main demo_env demo_config demo_args)) \<and>
   result_trace (main demo_env demo_config demo_args) ! 11 = EvPrune \<and>
   result_trace (main demo_env demo_config demo_args) ! 15 =
     EvAddNode \<lparr>sim_id = 100, sim_latitude = 49, sim_longitude = 8\<rparr>"
  by (simp add: demo_trace never_after_def is_AddNode_def)

text \<open>
  C5 (as amended). The simulation nodes read from the JSON file are added after the
  pruner has run: in every run no call of the pruner happens from the first \<^verbatim>\<open>addNode\<close>
  on, and a run that adds a node has pruned once before. In a run that succeeds, a file of
  fewer than $2^{31}$ records has every record added, in file order; from $2^{31}$ records
  on the \<^verbatim>\<open>int\<close> bound of the loop is negative and no record is added. The nodes are
  added to the simulation topology that was constructed from the pruned base topology.
\<close>

theorem simulation_nodes_added_after_prune:
  fixes e :: "('g, 's) env"
  shows "never_after (\<lambda>ev. ev = EvPrune) is_AddNode (result_trace (main e config args)) \<and>
         (list_ex is_AddNode (result_trace (main e config args)) \<longrightarrow>
            occurrences EvPrune (result_trace (main e config args)) = 1) \<and>
         (main e config args = Inr fin \<longrightarrow>
            (length (sim_nodes_read e args) < 2 ^ 31 \<longrightarrow>
               filter is_AddNode (trace fin) = map EvAddNode (sim_nodes_read e args)) \<and>
            (2 ^ 31 \<le> length (sim_nodes_read e args) \<and> length (sim_nodes_read e args) < 2 ^ 32 \<longrightarrow>
               filter is_AddNode (trace fin) = []) \<and>
            filter is_AddNode (trace fin) = map EvAddNode (sim_nodes_added e args) \<and>
            (baseTopo fin, simTopo fin) =
              fold (addNode e) (sim_nodes_added e args)
                (pruned_topology e config args,
                 newSimulationTopology e (pruned_topology e config args)))"
proof (cases "cluster_config_ok config")
  case False
  have none: "\<not> list_ex is_AddNode (result_trace (main e config args))"
    using main_bad(2)[OF False, of e args]
    by (auto simp: import_event_def neighbour_event_def optics_event_def is_AddNode_def
        split: if_splits)
  then have "never_after (\<lambda>ev. ev = EvPrune) is_AddNode (result_trace (main e config args))"
    by (rule never_after_absent)
  moreover have "main e config args \<noteq> Inr fin"
    using main_success_ok False by blast
  ultimately show ?thesis using none by simp
next
  case True
  obtain post where tr: "result_trace (main e config args) = pipeline_trace config args @ post"
    and post: "list_all is_output_event post"
    using main_ok_trace[OF True] by blast
  have no_prune: "\<not> list_ex (\<lambda>x. x = EvPrune) post"
    by (rule output_events_exclude[OF post]) (simp add: is_output_event_def)
  have no_add: "\<not> list_ex is_AddNode (pipeline_trace config args)"
    by (simp add: pipeline_trace_def import_event_def neighbour_event_def metropolis_event_def
        optics_event_def is_AddNode_def)
  then have drop: "dropWhile (\<lambda>ev. \<not> is_AddNode ev) (pipeline_trace config args @ post) =
      dropWhile (\<lambda>ev. \<not> is_AddNode ev) post"
    by (simp add: list_ex_iff)
  have "set (dropWhile (\<lambda>ev. \<not> is_AddNode ev) post) \<subseteq> set post"
    by (rule set_dropWhileD[THEN subsetI])
  with no_prune have after_prune:
    "never_after (\<lambda>ev. ev = EvPrune) is_AddNode (result_trace (main e config args))"
    by (auto simp: tr never_after_def drop list_ex_iff)
  have pruned: "occurrences EvPrune (result_trace (main e config args)) = 1"
    by (simp add: tr occurrences_def not_list_ex_filter[OF no_prune] pipeline_trace_def
        import_event_def neighbour_event_def metropolis_event_def optics_event_def)
  have final: "(length (sim_nodes_read e args) < 2 ^ 31 \<longrightarrow>
               filter is_AddNode (trace fin) = map EvAddNode (sim_nodes_read e args)) \<and>
            (2 ^ 31 \<le> length (sim_nodes_read e args) \<and> length (sim_nodes_read e args) < 2 ^ 32 \<longrightarrow>
               filter is_AddNode (trace fin) = []) \<and>
            filter is_AddNode (trace fin) = map EvAddNode (sim_nodes_added e args) \<and>
            (baseTopo fin, simTopo fin) =
              fold (addNode e) (sim_nodes_added e args)
                (pruned_topology e config args,
                 newSimulationTopology e (pruned_topology e config args))"
    if run: "main e config args = Inr fin"
  proof -
    have "filter is_AddNode (map EvAddNode (sim_nodes_added e args)) =
        map EvAddNode (sim_nodes_added e args)"
      by (simp add: filter_map comp_def is_AddNode_def)
    then have added: "filter is_AddNode (trace fin) = map EvAddNode (sim_nodes_added e args)"
      using not_list_ex_filter[OF no_add]
      by (simp add: main_success(3)[OF run] is_AddNode_def)
    have all: "filter is_AddNode (trace fin) = map EvAddNode (sim_nodes_read e args)"
      if "length (sim_nodes_read e args) < 2 ^ 31"
      using added sim_nodes_added_all[OF that] by simp
    have none: "filter is_AddNode (trace fin) = []"
      if "2 ^ 31 \<le> length (sim_nodes_read e args)" "length (sim_nodes_read e args) < 2 ^ 32"
      using added sim_nodes_added_none[OF that] by simp
    from all none added main_success(2)[OF run] show ?thesis
      by blast
  qed
  from after_prune pruned final show ?thesis by simp
qed

theorem simulation_nodes_added_after_prune_witness:
  "main demo_env demo_config demo_args = Inr demo_final \<and>
   list_ex is_AddNode (result_trace (main demo_env demo_config demo_args)) \<and>
   length (sim_nodes_read demo_env demo_args) < 2 ^ 31 \<and>
   never_after (\<lambda>ev. ev = EvPrune) is_AddNode (result_trace (main demo_env demo_config demo_args)) \<and>
   occurrences EvPrune (result_trace (main demo_env demo_config demo_args)) = 1 \<and>
   filter is_AddNode (trace demo_final) =
     [EvAddNode \<lparr>sim_id = 100, sim_latitude = 49, sim_longitude = 8\<rparr>] \<and>
   (baseTopo demo_final, simTopo demo_final) =
     ([(1, 2), (2, 3), (0, 4)], [\<lparr>sim_id = 100, sim_latitude = 49, sim_longitude = 8\<rparr>]) \<and>
   main many_nodes_env demo_config demo_args =
     Inr (projr (main many_nodes_env demo_config demo_args)) \<and>
   length (sim_nodes_read many_nodes_env demo_args) = 2147483648 \<and>
   filter is_AddNode (trace (projr (main many_nodes_env demo_config demo_args))) = []"
proof -
  have added: "list_ex is_AddNode (result_trace (main demo_env demo_config demo_args))"
    by (simp add: demo_trace is_AddNode_def)
  have nodes: "sim_nodes_read demo_env demo_args =
      [\<lparr>sim_id = 100, sim_latitude = 49, sim_longitude = 8\<rparr>]"
    by (simp add: sim_nodes_read_def demo_env_def demo_args_def)
  then have few: "length (sim_nodes_read demo_env demo_args) < 2 ^ 31"
    by simp
  have step: "fold (addNode demo_env) [\<lparr>sim_id = 100, sim_latitude = 49, sim_longitude = 8\<rparr>]
      ([(1, 2), (2, 3), (0, 4)], newSimulationTopology demo_env [(1, 2), (2, 3), (0, 4)]) =
      ([(1, 2), (2, 3), (0, 4)], [\<lparr>sim_id = 100, sim_latitude = 49, sim_longitude = 8\<rparr>])"
    by (simp add: demo_env_def)
  from simulation_nodes_added_after_prune[of demo_env demo_config demo_args demo_final]
    demo_run added few
  have "never_after (\<lambda>ev. ev = EvPrune) is_AddNode (result_trace (main demo_env demo_config demo_args)) \<and>
   occurrences EvPrune (result_trace (main demo_env demo_config demo_args)) = 1 \<and>
   filter is_AddNode (trace demo_final) = map EvAddNode (sim_nodes_read demo_env demo_args) \<and>
   (baseTopo demo_final, simTopo demo_final) =
              fold (addNode demo_env) (sim_nodes_added demo_env demo_args)
                (pruned_topology demo_env demo_config demo_args,
                 newSimulationTopology demo_env (pruned_topology demo_env demo_config demo_args))"
    by blast
  then have small: "never_after (\<lambda>ev. ev = EvPrune) is_AddNode
       (result_trace (main demo_env demo_config demo_args)) \<and>
     occurrences EvPrune (result_trace (main demo_env demo_config demo_args)) = 1 \<and>
     filter is_AddNode (trace demo_final) =
       [EvAddNode \<lparr>sim_id = 100, sim_latitude = 49, sim_longitude = 8\<rparr>] \<and>
     (baseTopo demo_final, simTopo demo_final) =
       ([(1, 2), (2, 3), (0, 4)], [\<lparr>sim_id = 100, sim_latitude = 49, sim_longitude = 8\<rparr>])"
    unfolding nodes demo_sim_nodes demo_pruned step by simp
  have "\<not> aborted (main many_nodes_env demo_config demo_args)"
    by (simp add: stage_defs aborted_def many_nodes_env_def demo_env_def demo_config_def
        demo_args_def)
  then have run: "main many_nodes_env demo_config demo_args =
      Inr (projr (main many_nodes_env demo_config demo_args))"
    by (cases "main many_nodes_env demo_config demo_args") (simp_all add: aborted_def)
  have many: "length (sim_nodes_read many_nodes_env demo_args) = 2147483648"
    by (simp add: sim_nodes_read_def many_nodes_env_def demo_args_def)
  from simulation_nodes_added_after_prune[of many_nodes_env demo_config demo_args
      "projr (main many_nodes_env demo_config demo_args)"] run many
  have none: "filter is_AddNode (trace (projr (main many_nodes_env demo_config demo_args))) = []"
    by simp
  from small none run many demo_run added few show ?thesis
    by blast
qed

text \<open>
  C6. With \<^verbatim>\<open>lengthFilter.enable\<close> false the density stage returns the state it was
  given: the same base topology (so the same nodes, edges and weights), the same store and
  the same trace, and \<^verbatim>\<open>filterByLength\<close> is called nowhere in the run.
\<close>

theorem density_filter_disabled_is_identity:
  fixes e :: "('g, 's) env"
  assumes "lengthFilter_enable config = False"
  shows "density_filter_stage e config st = st \<and>
         occurrences EvFilterByLength (result_trace (main e config args)) = 0"
proof -
  have stage: "density_filter_stage e config st = st"
    using assms by (simp add: density_filter_stage_def)
  have "occurrences EvFilterByLength (result_trace (main e config args)) = 0"
  proof (cases "cluster_config_ok config")
    case False
    from main_bad(2)[OF False, of e args] show ?thesis
      by (auto simp: occurrences_def import_event_def neighbour_event_def optics_event_def)
  next
    case True
    obtain post where tr: "result_trace (main e config args) = pipeline_trace config args @ post"
      and post: "list_all is_output_event post"
      using main_ok_trace[OF True] by blast
    have "\<not> list_ex (\<lambda>x. x = EvFilterByLength) post"
      by (rule output_events_exclude[OF post]) (simp add: is_output_event_def)
    from not_list_ex_filter[OF this] assms show ?thesis
      by (simp add: tr occurrences_def pipeline_trace_def import_event_def neighbour_event_def
          metropolis_event_def optics_event_def)
  qed
  with stage show ?thesis by simp
qed

theorem density_filter_disabled_is_identity_witness:
  "lengthFilter_enable demo_config = False \<and>
   density_filter_stage demo_env demo_config
     \<lparr>locations = demo_cities, trace = [EvFilterBetaSkeletonEdges], baseTopo = [(0, 1), (1, 2)]\<rparr> =
     \<lparr>locations = demo_cities, trace = [EvFilterBetaSkeletonEdges], baseTopo = [(0, 1), (1, 2)]\<rparr> \<and>
   occurrences EvFilterByLength (result_trace (main demo_env demo_config demo_args)) = 0"
proof -
  have off: "lengthFilter_enable demo_config = False"
    by (simp add: demo_config_def)
  from density_filter_disabled_is_identity[OF off, of demo_env _ demo_args] off
  show ?thesis by simp
qed

text \<open>
  C7 as stated fails for the radius: with the smallest positive double as neighbour
  distance the assertion of line 83 holds, the quotient by the Earth radius rounds to the
  radius 0, and the run does not abort: its second call is the neighbour filter, with the
  radius 0.
\<close>

theorem zero_radius_passes_the_assertion_counterexample:
  "0 < neighbourCluster_maxClusterDistance tiny_distance_config \<and>
   cluster_eps (neighbourCluster_maxClusterDistance tiny_distance_config) = 0 \<and>
   \<not> aborted (main demo_env tiny_distance_config demo_args) \<and>
   result_trace (main demo_env tiny_distance_config demo_args) ! 1 = EvOPTICSFilter 0 2 0 42"
proof -
  have d: "neighbourCluster_maxClusterDistance tiny_distance_config = 1 / 2 ^ 1074"
    by (simp add: tiny_distance_config_def)
  have given: "neighbourCluster_minPts tiny_distance_config = 2" "getSeed demo_args = 42"
    by (simp_all add: tiny_distance_config_def demo_config_def demo_args_def)
  have pos: "0 < neighbourCluster_maxClusterDistance tiny_distance_config"
    by (simp add: tiny_distance_config_def)
  have eps: "cluster_eps (neighbourCluster_maxClusterDistance tiny_distance_config) = 0"
    unfolding d by (rule cluster_eps_tiny)
  have ok: "cluster_config_ok tiny_distance_config"
    by (simp add: cluster_config_ok_def tiny_distance_config_def demo_config_def)
  obtain post where
    tr: "result_trace (main demo_env tiny_distance_config demo_args) =
      pipeline_trace tiny_distance_config demo_args @ post"
    using main_ok_trace[OF ok] by blast
  have "result_trace (main demo_env tiny_distance_config demo_args) ! 1 =
      neighbour_event tiny_distance_config demo_args"
    by (simp add: tr pipeline_trace_def)
  also have "\<dots> = EvOPTICSFilter 0 2 0 42"
    unfolding neighbour_event_def optics_event_def eps cluster_eps'_0 given ..
  finally have call: "result_trace (main demo_env tiny_distance_config demo_args) ! 1 =
      EvOPTICSFilter 0 2 0 42" .
  have run: "\<not> aborted (main demo_env tiny_distance_config demo_args)"
    by (simp add: stage_defs aborted_def demo_env_def tiny_distance_config_def demo_config_def
        demo_args_def)
  from pos eps run call show ?thesis
    by blast
qed

text \<open>
  C7 (as amended). A neighbour pass with \<^verbatim>\<open>minPts\<close> zero or a non-positive
  \<^verbatim>\<open>maxClusterDistance\<close> aborts the run right after the city import: no OPTICS filter has
  been called. A metropolis pass with such a configuration, after a neighbour pass that was
  accepted, aborts the run right after the neighbour pass: the only OPTICS call of the run
  is the neighbour pass's.
\<close>

theorem invalid_cluster_config_aborts_before_filter:
  fixes e :: "('g, 's) env"
  shows
   "(neighbourCluster_minPts config = 0 \<or> neighbourCluster_maxClusterDistance config \<le> 0 \<longrightarrow>
       aborted (main e config args) \<and>
       result_trace (main e config args) = [import_event config args] \<and>
       filter is_OPTICSFilter (result_trace (main e config args)) = []) \<and>
    (0 < neighbourCluster_minPts config \<and> 0 < neighbourCluster_maxClusterDistance config \<and>
     (metropolisCluster_minPts config = 0 \<or> metropolisCluster_maxClusterDistance config \<le> 0) \<longrightarrow>
       aborted (main e config args) \<and>
       result_trace (main e config args) = [import_event config args, neighbour_event config args] \<and>
       filter is_OPTICSFilter (result_trace (main e config args)) = [neighbour_event config args])"
proof -
  have nb: "aborted (main e config args) \<and>
       result_trace (main e config args) = [import_event config args] \<and>
       filter is_OPTICSFilter (result_trace (main e config args)) = []"
    if "neighbourCluster_minPts config = 0 \<or> neighbourCluster_maxClusterDistance config \<le> 0"
  proof -
    note st = trace_import[of e config args]
    from optics_pass_fail[OF that, of e "''neighbourCluster''" "getSeed args"
        "import_cities_stage e config args"]
    have "aborted (main e config args)"
      and "result_trace (main e config args) = [import_event config args]"
      by (auto simp: main_def neighbour_cluster_stage_def and_then_def aborted_def
          result_trace_def st split: sum.splits)
    then show ?thesis
      by (simp add: import_event_def is_OPTICSFilter_def)
  qed
  have mp: "aborted (main e config args) \<and>
       result_trace (main e config args) = [import_event config args, neighbour_event config args] \<and>
       filter is_OPTICSFilter (result_trace (main e config args)) = [neighbour_event config args]"
    if ok: "0 < neighbourCluster_minPts config" "0 < neighbourCluster_maxClusterDistance config"
      and bad: "metropolisCluster_minPts config = 0 \<or> metropolisCluster_maxClusterDistance config \<le> 0"
  proof -
    let ?st1 = "(import_cities_stage e config args)
        \<lparr>locations := OPTICSFilter_filter e
            (cluster_eps (neighbourCluster_maxClusterDistance config))
            (neighbourCluster_minPts config)
            (cluster_eps' (cluster_eps (neighbourCluster_maxClusterDistance config))) (getSeed args)
            (locations (import_cities_stage e config args)),
         trace := trace (import_cities_stage e config args) @ [neighbour_event config args]\<rparr>"
    have st1: "neighbour_cluster_stage e config args (import_cities_stage e config args) = Inr ?st1"
      by (simp add: neighbour_cluster_stage_def optics_pass_ok[OF ok] neighbour_event_def)
    from optics_pass_fail[OF bad, of e "''metropolisCluster''" "getSeed args" ?st1]
    have "aborted (main e config args)"
      and "result_trace (main e config args) = [import_event config args, neighbour_event config args]"
      unfolding main_def st1
      by (auto simp: metropolis_cluster_stage_def and_then_def aborted_def
          result_trace_def trace_import split: sum.splits)
    then show ?thesis
      by (simp add: import_event_def is_OPTICSFilter_def neighbour_event_def optics_event_def)
  qed
  from nb mp show ?thesis by blast
qed
theorem invalid_cluster_config_aborts_before_filter_witness:
  "neighbourCluster_minPts bad_neighbour_config = 0 \<and>
   aborted (main demo_env bad_neighbour_config demo_args) \<and>
   result_trace (main demo_env bad_neighbour_config demo_args) = [EvImportCities 42] \<and>
   0 < neighbourCluster_minPts bad_metropolis_config \<and>
   0 < neighbourCluster_maxClusterDistance bad_metropolis_config \<and>
   metropolisCluster_maxClusterDistance bad_metropolis_config \<le> 0 \<and>
   aborted (main demo_env bad_metropolis_config demo_args) \<and>
   result_trace (main demo_env bad_metropolis_config demo_args) =
     [EvImportCities 42, neighbour_event bad_metropolis_config demo_args] \<and>
   filter is_OPTICSFilter (result_trace (main demo_env bad_metropolis_config demo_args)) =
     [neighbour_event bad_metropolis_config demo_args]"
proof -
  have nb: "neighbourCluster_minPts bad_neighbour_config = 0"
    by (simp add: bad_neighbour_config_def)
  have mp: "0 < neighbourCluster_minPts bad_metropolis_config"
    "0 < neighbourCluster_maxClusterDistance bad_metropolis_config"
    "metropolisCluster_maxClusterDistance bad_metropolis_config \<le> 0"
    by (simp_all add: bad_metropolis_config_def demo_config_def)
  have ev: "import_event bad_neighbour_config demo_args = EvImportCities 42"
    "import_event bad_metropolis_config demo_args = EvImportCities 42"
    by (simp_all add: import_event_def bad_neighbour_config_def bad_metropolis_config_def
        demo_config_def demo_args_def)
  from invalid_cluster_config_aborts_before_filter[of bad_neighbour_config demo_env demo_args] nb
  have first: "aborted (main demo_env bad_neighbour_config demo_args) \<and>
      result_trace (main demo_env bad_neighbour_config demo_args) =
        [import_event bad_neighbour_config demo_args]"
    by blast
  from invalid_cluster_config_aborts_before_filter[of bad_metropolis_config demo_env demo_args] mp
  have second: "aborted (main demo_env bad_metropolis_config demo_args) \<and>
      result_trace (main demo_env bad_metropolis_config demo_args) =
        [import_event bad_metropolis_config demo_args,
         neighbour_event bad_metropolis_config demo_args] \<and>
      filter is_OPTICSFilter (result_trace (main demo_env bad_metropolis_config demo_args)) =
        [neighbour_event bad_metropolis_config demo_args]"
    by blast
  from first[unfolded ev] second[unfolded ev] nb mp show ?thesis
    by blast
qed

text \<open>
  C10. The file name is the command line's when that is not empty and the configuration's
  otherwise, and a run that reaches the JSON output with the output enabled writes exactly
  one JSON file, under that name; with the output disabled it writes none.
\<close>

theorem json_output_file_name_precedence:
  fixes e :: "('g, 's) env"
  shows "json_file_name cli cfg = (if cli \<noteq> [] then cli else cfg) \<and>
    (\<not> aborted (main e config args) \<and> jsonOutputEnabled args \<longrightarrow>
       filter is_JSONWrite (result_trace (main e config args)) =
         [EvJSONWrite (json_pretty_print config)
            (if jsonOutputFile args \<noteq> [] then jsonOutputFile args else json_filename config)]) \<and>
    (\<not> aborted (main e config args) \<and> \<not> jsonOutputEnabled args \<longrightarrow>
       filter is_JSONWrite (result_trace (main e config args)) = [])"
proof -
  have name: "json_file_name c f = (if c \<noteq> [] then c else f)" for c f
    by (simp add: json_file_name_def)
  have run: "filter is_JSONWrite (result_trace (main e config args)) =
      (if jsonOutputEnabled args
       then [EvJSONWrite (json_pretty_print config)
            (if jsonOutputFile args \<noteq> [] then jsonOutputFile args else json_filename config)]
       else [])"
    if "\<not> aborted (main e config args)"
  proof -
    from that obtain fin where fin: "main e config args = Inr fin"
      by (auto simp: aborted_def split: sum.splits)
    have pre: "filter is_JSONWrite (pipeline_trace config args) = []"
      by (simp add: pipeline_trace_def import_event_def neighbour_event_def metropolis_event_def
          optics_event_def is_JSONWrite_def)
    have nodes: "filter is_JSONWrite (map EvAddNode ns) = []" for ns
      by (simp add: filter_empty_conv is_JSONWrite_def)
    show ?thesis
      by (simp add: fin result_trace_def main_success(3)[OF fin] pre nodes name is_JSONWrite_def)
  qed
  from name run show ?thesis by simp
qed

theorem json_output_file_name_precedence_witness:
  "\<not> aborted (main demo_env demo_config demo_args) \<and> jsonOutputEnabled demo_args \<and>
   filter is_JSONWrite (result_trace (main demo_env demo_config demo_args)) =
     [EvJSONWrite True ''out.json''] \<and>
   \<not> aborted (main demo_env demo_config plain_args) \<and> jsonOutputEnabled plain_args \<and>
   filter is_JSONWrite (result_trace (main demo_env demo_config plain_args)) =
     [EvJSONWrite True ''graph.json'']"
proof -
  have runs: "\<not> aborted (main demo_env demo_config demo_args)"
    "\<not> aborted (main demo_env demo_config plain_args)"
    by (simp_all add: stage_defs aborted_def demo_env_def demo_config_def demo_args_def
        plain_args_def)
  have given: "jsonOutputEnabled demo_args" "jsonOutputEnabled plain_args"
    "jsonOutputFile demo_args = ''out.json''" "jsonOutputFile plain_args = []"
    "json_filename demo_config = ''graph.json''" "json_pretty_print demo_config = True"
    by (simp_all add: demo_args_def plain_args_def demo_config_def)
  from json_output_file_name_precedence[of _ _ demo_env demo_config demo_args]
    json_output_file_name_precedence[of _ _ demo_env demo_config plain_args]
    runs given
  show ?thesis by simp
qed

section \<open>Properties of the graph stages\<close>

declare reach.simps [simp del]

subsection \<open>The edge filters\<close>

lemma beta_filter_edges:
  "edges (BetaSkeletonFilter_filterBetaSkeletonEdges \<beta> g) = filter (beta_retains \<beta> g) (edges g)"
  and beta_filter_nodes: "nodes (BetaSkeletonFilter_filterBetaSkeletonEdges \<beta> g) = nodes g"
  by (simp_all add: BetaSkeletonFilter_filterBetaSkeletonEdges_def)

lemma density_filter_edges:
  "set (edges (PopulationDensityFilter_filterByLength density implausible g)) \<subseteq> set (edges g)"
  and density_filter_nodes:
  "nodes (PopulationDensityFilter_filterByLength density implausible g) = nodes g"
  by (auto simp: PopulationDensityFilter_filterByLength_def)

text \<open>
  C2. With the beta-skeleton filter and the density filter of the specification in place
  of the driver's collaborators, the edges (endpoints and weight) of the base topology after
  the beta-skeleton stage are among those before it, and so are the edges after the density
  stage, whether the density filter is enabled or not; neither stage changes the nodes; and
  the edges after the beta-skeleton stage are among the edges the triangulation returned.
  The filters themselves return a sublist of the edges and the same nodes.
\<close>

theorem edge_filters_only_remove_edges:
  fixes e :: "(TopologyGraph, 's) env"
  assumes beta: "filterBetaSkeletonEdges e = BetaSkeletonFilter_filterBetaSkeletonEdges \<beta>"
    and dens: "filterByLength e = PopulationDensityFilter_filterByLength density implausible"
  shows "set (edges (BetaSkeletonFilter_filterBetaSkeletonEdges \<beta> g)) \<subseteq> set (edges g) \<and>
         nodes (BetaSkeletonFilter_filterBetaSkeletonEdges \<beta> g) = nodes g \<and>
         set (edges (PopulationDensityFilter_filterByLength density implausible g)) \<subseteq> set (edges g) \<and>
         nodes (PopulationDensityFilter_filterByLength density implausible g) = nodes g \<and>
         set (edges (baseTopo (beta_skeleton_stage e st))) \<subseteq> set (edges (baseTopo st)) \<and>
         nodes (baseTopo (beta_skeleton_stage e st)) = nodes (baseTopo st) \<and>
         set (edges (baseTopo (density_filter_stage e config st))) \<subseteq> set (edges (baseTopo st)) \<and>
         nodes (baseTopo (density_filter_stage e config st)) = nodes (baseTopo st) \<and>
         set (edges (baseTopo (beta_skeleton_stage e (kml_stage args file (delaunay_stage e ls)))))
           \<subseteq> set (edges (DelaunayGraphCreator_create e (locations ls)))"
proof -
  have b: "set (edges (BetaSkeletonFilter_filterBetaSkeletonEdges \<beta> h)) \<subseteq> set (edges h)" for h
    by (simp add: beta_filter_edges)
  have d: "set (edges (PopulationDensityFilter_filterByLength density implausible h))
      \<subseteq> set (edges h)" for h
    by (rule density_filter_edges)
  have stage_b: "baseTopo (beta_skeleton_stage e s) =
      BetaSkeletonFilter_filterBetaSkeletonEdges \<beta> (baseTopo s)" for s :: "TopologyGraph topo_state"
    by (simp add: beta_skeleton_stage_def beta)
  have stage_d: "baseTopo (density_filter_stage e config st) =
      (if lengthFilter_enable config
       then PopulationDensityFilter_filterByLength density implausible (baseTopo st)
       else baseTopo st)"
    by (simp add: density_filter_stage_def dens)
  have tri: "baseTopo (kml_stage args file (delaunay_stage e ls)) =
      DelaunayGraphCreator_create e (locations ls)"
    by (simp add: kml_stage_def delaunay_stage_def)
  show ?thesis
    using b d by (simp add: stage_b stage_d tri beta_filter_nodes density_filter_nodes)
qed

theorem edge_filters_only_remove_edges_witness:
  "filterBetaSkeletonEdges square_env = BetaSkeletonFilter_filterBetaSkeletonEdges 1 \<and>
   filterByLength square_env = PopulationDensityFilter_filterByLength no_density too_long \<and>
   edges (baseTopo square_triangulated) =
     [(0, 1, 1), (1, 2, 1), (0, 2, 1.5), (2, 3, 1), (0, 3, 1)] \<and>
   edges (baseTopo (beta_skeleton_stage square_env square_triangulated)) =
     [(0, 1, 1), (1, 2, 1), (2, 3, 1), (0, 3, 1)] \<and>
   set (edges (baseTopo (beta_skeleton_stage square_env square_triangulated)))
     \<subseteq> set (edges (baseTopo square_triangulated)) \<and>
   nodes (baseTopo (beta_skeleton_stage square_env square_triangulated)) =
     nodes (baseTopo square_triangulated) \<and>
   set (edges (baseTopo (density_filter_stage square_env (demo_config\<lparr>lengthFilter_enable := True\<rparr>)
          square_triangulated)))
     \<subseteq> set (edges (baseTopo square_triangulated)) \<and>
   nodes (baseTopo (density_filter_stage square_env (demo_config\<lparr>lengthFilter_enable := True\<rparr>)
          square_triangulated)) =
     nodes (baseTopo square_triangulated)"
proof -
  have beta: "filterBetaSkeletonEdges square_env = BetaSkeletonFilter_filterBetaSkeletonEdges 1"
    and dens: "filterByLength square_env = PopulationDensityFilter_filterByLength no_density too_long"
    by (simp_all add: square_env_def)
  have before: "edges (baseTopo square_triangulated) =
      [(0, 1, 1), (1, 2, 1), (0, 2, 1.5), (2, 3, 1), (0, 3, 1)]"
    by (simp add: square_triangulated_def)
  have after: "edges (baseTopo (beta_skeleton_stage square_env square_triangulated)) =
      [(0, 1, 1), (1, 2, 1), (2, 3, 1), (0, 3, 1)]"
    by (simp add: beta_skeleton_stage_def beta BetaSkeletonFilter_filterBetaSkeletonEdges_def
        square_triangulated_def square_nodes_def beta_retains_def position_def in_lune_def
        lune_centre_def dist2_def power2_eq_square)
  from edge_filters_only_remove_edges[OF beta dens, of "baseTopo square_triangulated"
      square_triangulated "demo_config\<lparr>lengthFilter_enable := True\<rparr>" demo_args "[]"
      "\<lparr>locations = square_cities, trace = []\<rparr>"]
    beta dens before after
  show ?thesis by blast
qed

subsection \<open>The pruner\<close>

lemma edge_rel_sym: "(a, b) \<in> edge_rel g \<Longrightarrow> (b, a) \<in> edge_rel g"
  by (auto simp: edge_rel_def adjacent_def list_ex_iff)

lemma sym_edge_rel: "sym (edge_rel g)"
  by (auto intro: symI edge_rel_sym)

lemma connected_sym: "(a, b) \<in> (edge_rel g)\<^sup>* \<Longrightarrow> (b, a) \<in> (edge_rel g)\<^sup>*"
  using sym_edge_rel[of g] by (meson sym_rtrancl symD)

lemma edge_rel_in_nodes:
  assumes "wf_graph g" and "(a, b) \<in> edge_rel g"
  shows "a \<in> set (node_idents g) \<and> b \<in> set (node_idents g)"
  using assms by (auto simp: wf_graph_def edge_rel_def adjacent_def list_all_iff list_ex_iff)

lemma connected_in_nodes:
  assumes "wf_graph g" and "(a, b) \<in> (edge_rel g)\<^sup>*" and "a \<in> set (node_idents g)"
  shows "b \<in> set (node_idents g)"
  using assms(2,3)
  by (induction rule: rtrancl_induct) (auto dest: edge_rel_in_nodes[OF assms(1)])

lemma frontier_sound:
  "b \<in> set (frontier g S) \<Longrightarrow> \<exists>a\<in>set S. (a, b) \<in> edge_rel g"
  by (auto simp: frontier_def edge_rel_def list_ex_iff)

lemma frontier_empty_closed:
  assumes "wf_graph g" and "frontier g S = []" and "a \<in> set S" and "(a, b) \<in> edge_rel g"
  shows "b \<in> set S"
proof (rule ccontr)
  assume "b \<notin> set S"
  moreover have "b \<in> set (node_idents g)"
    using edge_rel_in_nodes[OF assms(1,4)] by simp
  moreover have "list_ex (\<lambda>a. adjacent g a b) S"
    using assms(3,4) by (auto simp: list_ex_iff edge_rel_def)
  ultimately have "b \<in> set (frontier g S)"
    by (simp add: frontier_def)
  with assms(2) show False by simp
qed

lemma reach_sound:
  "b \<in> set (reach g S) \<Longrightarrow> \<exists>a\<in>set S. (a, b) \<in> (edge_rel g)\<^sup>*"
proof (induction g S rule: reach.induct)
  case (1 g S)
  show ?case
  proof (cases "frontier g S = []")
    case True
    with "1.prems" show ?thesis by (auto simp: reach.simps[of g S])
  next
    case False
    with "1.prems" have "b \<in> set (reach g (S @ frontier g S))"
      by (simp add: reach.simps[of g S])
    from "1.IH"[OF False this] obtain a where
      a: "a \<in> set S \<union> set (frontier g S)" and ab: "(a, b) \<in> (edge_rel g)\<^sup>*"
      by auto
    show ?thesis
    proof (cases "a \<in> set S")
      case True
      with ab show ?thesis by blast
    next
      case False
      with a obtain a' where "a' \<in> set S" "(a', a) \<in> edge_rel g"
        using frontier_sound by blast
      with ab show ?thesis
        by (meson converse_rtrancl_into_rtrancl)
    qed
  qed
qed

lemma reach_superset: "set S \<subseteq> set (reach g S)"
proof (induction g S rule: reach.induct)
  case (1 g S)
  show ?case
  proof (cases "frontier g S = []")
    case True
    then show ?thesis by (simp add: reach.simps[of g S])
  next
    case False
    from "1.IH"[OF False] show ?thesis
      using False by (simp add: reach.simps[of g S])
  qed
qed

lemma reach_closed:
  "wf_graph g \<Longrightarrow> a \<in> set (reach g S) \<Longrightarrow> (a, b) \<in> edge_rel g \<Longrightarrow> b \<in> set (reach g S)"
proof (induction g S rule: reach.induct)
  case (1 g S)
  show ?case
  proof (cases "frontier g S = []")
    case True
    with "1.prems" frontier_empty_closed[OF "1.prems"(1) True] show ?thesis
      by (simp add: reach.simps[of g S])
  next
    case False
    with "1.IH"[OF False] "1.prems" show ?thesis
      by (simp add: reach.simps[of g S])
  qed
qed

lemma reach_complete:
  assumes "wf_graph g" and "a \<in> set S" and "(a, b) \<in> (edge_rel g)\<^sup>*"
  shows "b \<in> set (reach g S)"
  using assms(3)
proof (induction rule: rtrancl_induct)
  case base
  with assms(2) reach_superset show ?case by blast
next
  case (step y z)
  then show ?case using reach_closed[OF assms(1)] by blast
qed

lemma reach_distinct: "distinct S \<Longrightarrow> distinct (reach g S)"
proof (induction g S rule: reach.induct)
  case (1 g S)
  show ?case
  proof (cases "frontier g S = []")
    case True
    with "1.prems" show ?thesis by (simp add: reach.simps[of g S])
  next
    case False
    have "distinct (S @ frontier g S)"
      using "1.prems" by (auto simp: frontier_def)
    from "1.IH"[OF False this] False show ?thesis
      by (simp add: reach.simps[of g S])
  qed
qed

lemma set_component_of:
  assumes "wf_graph g"
  shows "set (component_of g a) = connected_to g a"
  using reach_sound[of _ g "[a]"] reach_complete[OF assms, of a "[a]"]
  by (auto simp: component_of_def connected_to_def)

lemma length_component_of: "length (component_of g a) = card (set (component_of g a))"
  by (simp add: component_of_def reach_distinct distinct_card)


lemma connected_to_refl: "a \<in> connected_to g a"
  by (simp add: connected_to_def)

lemma connected_to_eq:
  assumes "b \<in> connected_to g a"
  shows "connected_to g b = connected_to g a"
proof -
  from assms have ab: "(a, b) \<in> (edge_rel g)\<^sup>*"
    by (simp add: connected_to_def)
  then have ba: "(b, a) \<in> (edge_rel g)\<^sup>*"
    by (rule connected_sym)
  show ?thesis
    using ab ba by (auto simp: connected_to_def intro: rtrancl_trans)
qed

lemma connected_to_subset_nodes:
  assumes "wf_graph g" and "a \<in> set (node_idents g)"
  shows "connected_to g a \<subseteq> set (node_idents g)"
  using connected_in_nodes[OF assms(1) _ assms(2)] by (auto simp: connected_to_def)

lemma finite_connected_to:
  assumes "wf_graph g" and "a \<in> set (node_idents g)"
  shows "finite (connected_to g a)"
  using connected_to_subset_nodes[OF assms] by (rule finite_subset) simp

lemma card_component_of:
  assumes "wf_graph g"
  shows "length (component_of g a) = card (connected_to g a)"
  by (simp add: length_component_of set_component_of[OF assms])

text \<open>
  The scan for the largest component returns the start value or the component of a
  candidate, and nothing it has seen is larger than what it returns.
\<close>

lemma largest_from_max:
  "largest_from policy g cs best \<in> insert best (component_of g ` set cs) \<and>
   length best \<le> length (largest_from policy g cs best) \<and>
   (\<forall>a\<in>set cs. length (component_of g a) \<le> length (largest_from policy g cs best))"
proof (induction cs arbitrary: best)
  case Nil
  then show ?case by simp
next
  case (Cons c cs)
  let ?next = "if length best < length (component_of g c) \<or>
      (length best = length (component_of g c) \<and> policy (component_of g c) best)
    then component_of g c else best"
  have step: "largest_from policy g (c # cs) best = largest_from policy g cs ?next"
    by (simp add: Let_def)
  have grows: "length best \<le> length ?next" "length (component_of g c) \<le> length ?next"
    by auto
  have from_here: "?next \<in> insert best (component_of g ` set (c # cs))"
    by simp
  from Cons.IH[of ?next]
  have res: "largest_from policy g cs ?next \<in> insert ?next (component_of g ` set cs)"
    and up: "length ?next \<le> length (largest_from policy g cs ?next)"
    and rest: "\<forall>a\<in>set cs. length (component_of g a) \<le> length (largest_from policy g cs ?next)"
    by blast+
  from res from_here
  have "largest_from policy g cs ?next \<in> insert best (component_of g ` set (c # cs))"
    by auto
  moreover from grows up have "length best \<le> length (largest_from policy g cs ?next)"
    and "length (component_of g c) \<le> length (largest_from policy g cs ?next)"
    by linarith+
  ultimately show ?case
    unfolding step using rest by simp
qed

text \<open>On a graph with a node: the root of the component that is kept.\<close>

lemma largest_component_root:
  assumes wf: "wf_graph g" and ne: "nodes g \<noteq> []"
  shows "\<exists>r\<in>set (node_idents g).
           set (largest_component policy g) = connected_to g r \<and>
           (\<forall>a\<in>set (node_idents g). card (connected_to g a) \<le> card (connected_to g r))"
proof -
  let ?cs = "sort (node_idents g)"
  let ?K = "largest_component policy g"
  from ne have "node_idents g \<noteq> []"
    by (simp add: node_idents_def)
  then obtain c where "c \<in> set (node_idents g)"
    by (cases "node_idents g") auto
  then have c: "c \<in> set ?cs"
    by (simp only: set_sort)
  have "c \<in> set (component_of g c)"
    using connected_to_refl[of c g] by (simp add: set_component_of[OF wf])
  then have pos: "0 < length (component_of g c)"
    by (cases "component_of g c") auto
  from largest_from_max[of policy g ?cs "[]"]
  have res: "?K \<in> insert [] (component_of g ` set ?cs)"
    and size: "\<forall>a\<in>set ?cs. length (component_of g a) \<le> length ?K"
    unfolding largest_component_def by blast+
  from size c pos have "?K \<noteq> []"
    by fastforce
  with res obtain r where r: "r \<in> set ?cs" and K: "?K = component_of g r"
    by auto
  from r have r': "r \<in> set (node_idents g)"
    by (simp only: set_sort)
  have "\<forall>a\<in>set (node_idents g). length (component_of g a) \<le> length (component_of g r)"
    using size unfolding K set_sort by simp
  then have "\<forall>a\<in>set (node_idents g). card (connected_to g a) \<le> card (connected_to g r)"
    by (simp add: card_component_of[OF wf])
  with r' K show ?thesis
    by (auto simp: set_component_of[OF wf])
qed


lemma node_idents_prune_graph:
  "node_idents (prune_graph policy g) = filter (\<lambda>a. a \<in> set (largest_component policy g)) (node_idents g)"
  by (simp add: prune_graph_def node_idents_def Let_def filter_map comp_def case_prod_unfold)

lemma edge_rel_prune_graph:
  "edge_rel (prune_graph policy g) =
     {(a, b). (a, b) \<in> edge_rel g \<and> a \<in> set (largest_component policy g) \<and> b \<in> set (largest_component policy g)}"
  by (auto simp: edge_rel_def adjacent_def prune_graph_def Let_def list_ex_iff)

lemma wf_prune_graph:
  assumes "wf_graph g"
  shows "wf_graph (prune_graph policy g)"
proof -
  have "distinct (node_idents (prune_graph policy g))"
    using assms by (simp add: node_idents_prune_graph wf_graph_def)
  moreover have "list_all (\<lambda>(u, v, w). u \<in> set (node_idents (prune_graph policy g)) \<and>
      v \<in> set (node_idents (prune_graph policy g)) \<and> u \<noteq> v) (edges (prune_graph policy g))"
  proof -
    have ids: "set (node_idents (prune_graph policy g)) =
        {a \<in> set (node_idents g). a \<in> set (largest_component policy g)}"
      by (simp add: node_idents_prune_graph)
    have es: "set (edges (prune_graph policy g)) \<subseteq> {(u, v, w). (u, v, w) \<in> set (edges g) \<and>
        u \<in> set (largest_component policy g) \<and> v \<in> set (largest_component policy g)}"
      by (auto simp: prune_graph_def Let_def)
    from assms have "\<forall>(u, v, w)\<in>set (edges g).
        u \<in> set (node_idents g) \<and> v \<in> set (node_idents g) \<and> u \<noteq> v"
      by (simp add: wf_graph_def list_all_iff)
    with es show ?thesis
      unfolding list_all_iff ids by fastforce
  qed
  moreover have "distinct (map (\<lambda>(u, v, w). (min u v, max u v)) (edges (prune_graph policy g)))"
    using assms by (simp add: wf_graph_def prune_graph_def Let_def distinct_map_filter)
  ultimately show ?thesis
    by (simp add: wf_graph_def)
qed

lemma connected_within:
  assumes closed: "\<And>a b. a \<in> K \<Longrightarrow> (a, b) \<in> E \<Longrightarrow> b \<in> K"
    and "(a, b) \<in> E\<^sup>*" and "a \<in> K"
  shows "(a, b) \<in> {(x, y). (x, y) \<in> E \<and> x \<in> K \<and> y \<in> K}\<^sup>* \<and> b \<in> K"
  using assms(2,3)
proof (induction rule: rtrancl_induct)
  case base
  then show ?case by simp
next
  case (step y z)
  then have "y \<in> K" and "z \<in> K"
    using closed by blast+
  with step show ?case
    by (auto intro: rtrancl_into_rtrancl)
qed

text \<open>
  The graph the pruner receives has a node: the triangulation is of at least three points,
  and neither edge filter changes the nodes.
\<close>

lemma triangulation_graph_has_nodes:
  assumes "delaunay_triangulation ns ts"
  shows "nodes (triangulation_graph weight ns ts) \<noteq> []"
proof -
  from assms obtain t where t: "t \<in> set ts" and face: "face_ok ns t"
    by (cases ts) (auto simp: delaunay_triangulation_def)
  obtain i j k where "t = (i, j, k)"
    by (cases t)
  with face have "map_of ns i \<noteq> None"
    by (auto simp: face_ok_def tri_points_def split: option.splits)
  then have "ns \<noteq> []"
    by auto
  then show ?thesis
    by (simp add: triangulation_graph_def)
qed

text \<open>
  C3. For every graph the pruner can receive (the graph invariant holds and there is a
  node) and every tie-break policy, the pruned graph has exactly one connected component,
  which is its whole node set; that node set is a connected component of the graph before
  pruning and no component before pruning has more nodes, so it is the maximum-size
  component whenever one component is larger than every other; the nodes kept are the
  nodes of that component and the edges kept are the edges between them, so every other
  node and its incident edges are discarded; and the pruned graph satisfies the invariant.
  Which of several components that tie for largest is kept is decided by the policy, a
  function of the two candidates.
\<close>

theorem prune_keeps_largest_component:
  assumes wf: "wf_graph g" and ne: "nodes g \<noteq> []"
  shows "components (prune_graph policy g) = {set (node_idents (prune_graph policy g))} \<and>
         set (node_idents (prune_graph policy g)) \<in> components g \<and>
         (\<forall>C\<in>components g. card C \<le> card (set (node_idents (prune_graph policy g)))) \<and>
         (\<forall>C\<in>components g. (\<forall>D\<in>components g. D \<noteq> C \<longrightarrow> card D < card C) \<longrightarrow>
            set (node_idents (prune_graph policy g)) = C) \<and>
         nodes (prune_graph policy g) =
           filter (\<lambda>(a, p). a \<in> set (node_idents (prune_graph policy g))) (nodes g) \<and>
         edges (prune_graph policy g) =
           filter (\<lambda>(u, v, w). u \<in> set (node_idents (prune_graph policy g)) \<and>
                               v \<in> set (node_idents (prune_graph policy g))) (edges g) \<and>
         wf_graph (prune_graph policy g)"
proof -
  let ?K = "set (largest_component policy g)"
  obtain r where r: "r \<in> set (node_idents g)" and K: "?K = connected_to g r"
    and size: "\<forall>a\<in>set (node_idents g). card (connected_to g a) \<le> card (connected_to g r)"
    using largest_component_root[OF wf ne] by blast
  have sub: "?K \<subseteq> set (node_idents g)"
    using connected_to_subset_nodes[OF wf r] K by simp
  have kept: "set (node_idents (prune_graph policy g)) = ?K"
    using sub by (auto simp: node_idents_prune_graph)
  have rK: "r \<in> ?K"
    using K connected_to_refl by simp
  have closed: "b \<in> ?K" if "a \<in> ?K" "(a, b) \<in> edge_rel g" for a b
    using that K by (auto simp: connected_to_def intro: rtrancl_into_rtrancl)
  have one: "connected_to (prune_graph policy g) a = ?K" if a: "a \<in> ?K" for a
  proof -
    have whole: "connected_to g a = ?K"
      using a K connected_to_eq by simp
    have "connected_to (prune_graph policy g) a \<subseteq> connected_to g a"
      unfolding connected_to_def edge_rel_prune_graph
      by (auto intro: rtrancl_mono[THEN subsetD, rotated])
    moreover have "connected_to g a \<subseteq> connected_to (prune_graph policy g) a"
    proof
      fix b assume "b \<in> connected_to g a"
      then have "(a, b) \<in> (edge_rel g)\<^sup>*"
        by (simp add: connected_to_def)
      from connected_within[of ?K "edge_rel g", OF closed this a]
      show "b \<in> connected_to (prune_graph policy g) a"
        by (simp add: connected_to_def edge_rel_prune_graph)
    qed
    ultimately show ?thesis using whole by simp
  qed
  have single: "components (prune_graph policy g) = {set (node_idents (prune_graph policy g))}"
    using one rK by (auto simp: components_def kept)
  have member: "set (node_idents (prune_graph policy g)) \<in> components g"
    using r K by (auto simp: components_def kept)
  have largest: "\<forall>C\<in>components g. card C \<le> card (set (node_idents (prune_graph policy g)))"
    using size by (auto simp: components_def kept K)
  have unique: "set (node_idents (prune_graph policy g)) = C"
    if C: "C \<in> components g" and most: "\<forall>D\<in>components g. D \<noteq> C \<longrightarrow> card D < card C" for C
  proof (rule ccontr)
    assume "set (node_idents (prune_graph policy g)) \<noteq> C"
    with most member have "card (set (node_idents (prune_graph policy g))) < card C"
      by blast
    with largest C show False
      by (simp add: leD)
  qed
  have nodes_kept: "nodes (prune_graph policy g) =
           filter (\<lambda>(a, p). a \<in> set (node_idents (prune_graph policy g))) (nodes g)"
    by (simp add: kept) (simp add: prune_graph_def Let_def)
  have edges_kept: "edges (prune_graph policy g) =
           filter (\<lambda>(u, v, w). u \<in> set (node_idents (prune_graph policy g)) \<and>
                               v \<in> set (node_idents (prune_graph policy g))) (edges g)"
    by (simp add: kept) (simp add: prune_graph_def Let_def)
  from single member largest unique nodes_kept edges_kept wf_prune_graph[OF wf]
  show ?thesis by blast
qed

text \<open>The components of the five-node graph, and what the pruner keeps of it.\<close>

lemma islands_components:
  "component_of islands 0 = [0, 1]" "component_of islands 1 = [1, 0]"
  "component_of islands 2 = [2, 3]" "component_of islands 3 = [3, 2]"
  "component_of islands 4 = [4]"
  by code_simp+

lemma islands_idents: "sort (node_idents islands) = [0, 1, 2, 3, 4]"
  by code_simp

lemma islands_component_1: "component_of islands (Suc 0) = [1, 0]"
  using islands_components(2) by simp

lemma islands_largest:
  "largest_component keep_first islands = [0, 1]"
  "largest_component keep_last islands = [3, 2]"
  by (simp_all add: largest_component_def islands_idents islands_components islands_component_1
      keep_first_def
      keep_last_def Let_def)

lemma islands_pruned_first:
  "prune_graph keep_first islands = \<lparr>nodes = [(0, (1, 0)), (1, (2, 0))], edges = [(0, 1, 2.5)]\<rparr>"
  by (simp add: prune_graph_def islands_largest) (simp add: islands_def)

lemma islands_pruned_last:
  "prune_graph keep_last islands = \<lparr>nodes = [(3, (0, 0)), (2, (3, 0))], edges = [(2, 3, 1.5)]\<rparr>"
  by (simp add: prune_graph_def islands_largest) (simp add: islands_def)

theorem prune_keeps_largest_component_witness:
  "wf_graph islands \<and> nodes islands \<noteq> [] \<and>
   prune_graph keep_first islands =
     \<lparr>nodes = [(0, (1, 0)), (1, (2, 0))], edges = [(0, 1, 2.5)]\<rparr> \<and>
   components (prune_graph keep_first islands) = {{0, 1}} \<and>
   {0, 1} \<in> components islands \<and>
   wf_graph (prune_graph keep_first islands) \<and>
   prune_graph keep_last islands =
     \<lparr>nodes = [(3, (0, 0)), (2, (3, 0))], edges = [(2, 3, 1.5)]\<rparr> \<and>
   components (prune_graph keep_last islands) = {{2, 3}} \<and>
   {2, 3} \<in> components islands"
proof -
  have wf: "wf_graph islands"
    by (simp add: wf_graph_def islands_def node_idents_def)
  have ne: "nodes islands \<noteq> []"
    by (simp add: islands_def)
  have first: "set (node_idents (prune_graph keep_first islands)) = {0, 1}"
    by (auto simp: islands_pruned_first node_idents_def)
  have last: "set (node_idents (prune_graph keep_last islands)) = {2, 3}"
    by (auto simp: islands_pruned_last node_idents_def)
  note first_kept = prune_keeps_largest_component[OF wf ne, of keep_first, unfolded first]
  note last_kept = prune_keeps_largest_component[OF wf ne, of keep_last, unfolded last]
  have one: "components (prune_graph keep_first islands) = {{0, 1}}"
    by (rule first_kept[THEN conjunct1])
  have member: "{0, 1} \<in> components islands"
    by (rule first_kept[THEN conjunct2, THEN conjunct1])
  have still_wf: "wf_graph (prune_graph keep_first islands)"
    by (rule first_kept[THEN conjunct2, THEN conjunct2, THEN conjunct2, THEN conjunct2,
          THEN conjunct2, THEN conjunct2])
  have other: "components (prune_graph keep_last islands) = {{2, 3}}"
    by (rule last_kept[THEN conjunct1])
  have other_member: "{2, 3} \<in> components islands"
    by (rule last_kept[THEN conjunct2, THEN conjunct1])
  show ?thesis
    by (intro conjI wf ne islands_pruned_first islands_pruned_last one member still_wf other
        other_member)
qed
subsection \<open>The unit square\<close>

lemma square_faces:
  assumes "face_ok square_nodes t"
  shows "t = (0, 1, 2) \<or> t = (0, 2, 3) \<or> t = (0, 1, 3) \<or> t = (1, 2, 3)"
proof -
  obtain i j k where t: "t = (i, j, k)"
    by (cases t) auto
  have corner: "n = 0 \<or> n = 1 \<or> n = 2 \<or> n = 3" if "map_of square_nodes n = Some p" for n p
    using that by (auto simp: square_nodes_def split: if_splits)
  from assms t have "i < j" "j < k"
    and "\<exists>a. map_of square_nodes i = Some a" "\<exists>b. map_of square_nodes j = Some b"
    "\<exists>c. map_of square_nodes k = Some c"
    by (auto simp: face_ok_def tri_points_def split: option.splits)
  then have "i < j" "j < k" "i \<le> 3" "j \<le> 3" "k \<le> 3"
    using corner by fastforce+
  then have "(i, j, k) = (0, 1, 2) \<or> (i, j, k) = (0, 2, 3) \<or> (i, j, k) = (0, 1, 3) \<or>
      (i, j, k) = (1, 2, 3)"
    by auto
  with t show ?thesis by simp
qed

lemmas square_geometry =
  square_nodes_def tri_points_def orient_def interiors_disjoint_def separates_def hull_edge_def

lemma square_overlaps:
  "\<not> interiors_disjoint square_nodes (0, 1, 2) (0, 1, 3)"
  "\<not> interiors_disjoint square_nodes (0, 1, 2) (1, 2, 3)"
  "\<not> interiors_disjoint square_nodes (0, 2, 3) (0, 1, 3)"
  "\<not> interiors_disjoint square_nodes (0, 2, 3) (1, 2, 3)"
  by (simp_all add: square_geometry)

lemma square_diagonals:
  "\<not> hull_edge square_nodes (0, 2)" "\<not> hull_edge square_nodes (1, 3)"
  by (simp_all add: square_geometry)

lemma square_triangulations:
  assumes "delaunay_triangulation square_nodes ts"
  shows "set ts = {(0, 1, 2), (0, 2, 3)} \<or> set ts = {(0, 1, 3), (1, 2, 3)}"
proof -
  let ?A = "(0, 1, 2) :: triangle" and ?B = "(0, 2, 3) :: triangle"
  let ?C = "(0, 1, 3) :: triangle" and ?D = "(1, 2, 3) :: triangle"
  from assms have ne: "ts \<noteq> []"
    and faces: "\<forall>t\<in>set ts. face_ok square_nodes t"
    and dis: "\<forall>s\<in>set ts. \<forall>t\<in>set ts. s = t \<or> interiors_disjoint square_nodes s t"
    and bnd: "\<forall>t\<in>set ts. \<forall>e\<in>set (tri_edges t).
        (\<forall>s\<in>set ts. s = t \<or> e \<notin> set (tri_edges s)) \<longrightarrow> hull_edge square_nodes e"
    by (simp_all add: delaunay_triangulation_def list_all_iff boundary_edge_def)
  have sub: "t = ?A \<or> t = ?B \<or> t = ?C \<or> t = ?D" if "t \<in> set ts" for t
    using faces that square_faces by blast
  have apart: "\<not> (s \<in> set ts \<and> t \<in> set ts)"
    if "s = ?A \<or> s = ?B" and "t = ?C \<or> t = ?D" for s t
  proof
    assume both: "s \<in> set ts \<and> t \<in> set ts"
    from that have "s \<noteq> t" by auto
    with both dis have "interiors_disjoint square_nodes s t" by blast
    with that square_overlaps show False by auto
  qed
  have pair: "s \<in> set ts" if t: "t \<in> set ts" and e: "e \<in> set (tri_edges t)"
    and inner: "\<not> hull_edge square_nodes e"
    and only: "\<And>x. x \<in> set ts \<Longrightarrow> e \<in> set (tri_edges x) \<Longrightarrow> x = t \<or> x = s" for s t e
  proof (rule ccontr)
    assume "s \<notin> set ts"
    with only have "\<forall>x\<in>set ts. x = t \<or> e \<notin> set (tri_edges x)" by blast
    with bnd t e have "hull_edge square_nodes e" by blast
    with inner show False by simp
  qed
  have d02: "x = ?A \<or> x = ?B" if "x \<in> set ts" "(0, 2) \<in> set (tri_edges x)" for x
    using sub[OF that(1)] that(2) by (auto simp: tri_edges_def)
  have d13: "x = ?C \<or> x = ?D" if "x \<in> set ts" "(1, 3) \<in> set (tri_edges x)" for x
    using sub[OF that(1)] that(2) by (auto simp: tri_edges_def)
  have AB: "?B \<in> set ts" if "?A \<in> set ts"
  proof (rule pair[OF that, of "(0, 2)"])
    show "(0, 2) \<in> set (tri_edges ?A)" by (simp add: tri_edges_def)
    show "\<not> hull_edge square_nodes (0, 2)" by (rule square_diagonals)
    show "x = ?A \<or> x = ?B" if "x \<in> set ts" "(0, 2) \<in> set (tri_edges x)" for x
      using d02[OF that] .
  qed
  have BA: "?A \<in> set ts" if "?B \<in> set ts"
  proof (rule pair[OF that, of "(0, 2)"])
    show "(0, 2) \<in> set (tri_edges ?B)" by (simp add: tri_edges_def)
    show "\<not> hull_edge square_nodes (0, 2)" by (rule square_diagonals)
    show "x = ?B \<or> x = ?A" if "x \<in> set ts" "(0, 2) \<in> set (tri_edges x)" for x
      using d02[OF that] by blast
  qed
  have CD: "?D \<in> set ts" if "?C \<in> set ts"
  proof (rule pair[OF that, of "(1, 3)"])
    show "(1, 3) \<in> set (tri_edges ?C)" by (simp add: tri_edges_def)
    show "\<not> hull_edge square_nodes (1, 3)" by (rule square_diagonals)
    show "x = ?C \<or> x = ?D" if "x \<in> set ts" "(1, 3) \<in> set (tri_edges x)" for x
      using d13[OF that] .
  qed
  have DC: "?C \<in> set ts" if "?D \<in> set ts"
  proof (rule pair[OF that, of "(1, 3)"])
    show "(1, 3) \<in> set (tri_edges ?D)" by (simp add: tri_edges_def)
    show "\<not> hull_edge square_nodes (1, 3)" by (rule square_diagonals)
    show "x = ?D \<or> x = ?C" if "x \<in> set ts" "(1, 3) \<in> set (tri_edges x)" for x
      using d13[OF that] by blast
  qed
  from ne obtain t where t: "t \<in> set ts"
    by (cases ts) auto
  show ?thesis
  proof (cases "t = ?A \<or> t = ?B")
    case True
    with t AB BA have "?A \<in> set ts" "?B \<in> set ts" by auto
    moreover from this apart have "?C \<notin> set ts" "?D \<notin> set ts" by blast+
    ultimately have "set ts = {?A, ?B}" using sub by blast
    then show ?thesis by simp
  next
    case False
    with t sub have "t = ?C \<or> t = ?D" by blast
    with t CD DC have "?C \<in> set ts" "?D \<in> set ts" by auto
    moreover from this apart have "?A \<notin> set ts" "?B \<notin> set ts" by blast+
    ultimately have "set ts = {?C, ?D}" using sub by blast
    then show ?thesis by simp
  qed
qed

lemma edge_pairs_triangulation_graph:
  "edge_pairs (triangulation_graph weight ns ts) = remdups (concat (map tri_edges ts))"
  by (simp add: edge_pairs_def triangulation_graph_def comp_def case_prod_unfold)

lemma edge_pairs_beta:
  "edge_pairs (BetaSkeletonFilter_filterBetaSkeletonEdges \<beta> g) =
     map (\<lambda>(u, v, w). (u, v)) (filter (beta_retains \<beta> g) (edges g))"
  by (simp add: edge_pairs_def beta_filter_edges)

lemma square_beta_retains:
  assumes "nodes g = square_nodes"
  shows "beta_retains 1 g (0, 1, w)" "beta_retains 1 g (1, 2, w)"
    "beta_retains 1 g (2, 3, w)" "beta_retains 1 g (0, 3, w)"
    "\<not> beta_retains 1 g (0, 2, w)" "\<not> beta_retains 1 g (1, 3, w)"
  using assms
  by (simp_all add: beta_retains_def position_def square_nodes_def in_lune_def lune_centre_def
      dist2_def power2_eq_square)

lemma square_edges_02:
  "set (tri_edges (0, 1, 2)) \<union> set (tri_edges (0, 2, 3)) =
     {(0, 1), (1, 2), (2, 3), (0, 3), (0, 2)}"
  by (auto simp: tri_edges_def)

lemma square_edges_13:
  "set (tri_edges (0, 1, 3)) \<union> set (tri_edges (1, 2, 3)) =
     {(0, 1), (1, 2), (2, 3), (0, 3), (1, 3)}"
  by (auto simp: tri_edges_def)

text \<open>
  C9. Whatever faces the triangulation of the unit square returns within its contract,
  they are two triangles that share one diagonal of the square, so the triangulation graph
  has the four boundary edges and that diagonal; and the beta-skeleton filter with
  $\beta = 1$ leaves exactly the four boundary edges 0-1, 1-2, 2-3 and 0-3, a 4-cycle.
\<close>

theorem unit_square_beta_skeleton:
  assumes "delaunay_triangulation square_nodes ts"
  shows "length ts = 2 \<and>
    (set ts = {(0, 1, 2), (0, 2, 3)} \<and>
       set (edge_pairs (triangulation_graph weight square_nodes ts)) =
         {(0, 1), (1, 2), (2, 3), (0, 3), (0, 2)}
     \<or> set ts = {(0, 1, 3), (1, 2, 3)} \<and>
       set (edge_pairs (triangulation_graph weight square_nodes ts)) =
         {(0, 1), (1, 2), (2, 3), (0, 3), (1, 3)}) \<and>
    length (edges (triangulation_graph weight square_nodes ts)) = 5 \<and>
    set (edge_pairs (BetaSkeletonFilter_filterBetaSkeletonEdges 1
           (triangulation_graph weight square_nodes ts))) =
      {(0, 1), (1, 2), (2, 3), (0, 3)} \<and>
    length (edges (BetaSkeletonFilter_filterBetaSkeletonEdges 1
           (triangulation_graph weight square_nodes ts))) = 4"
proof -
  let ?g = "triangulation_graph weight square_nodes ts"
  let ?sides = "{(0, 1), (1, 2), (2, 3), (0, 3)} :: (nat \<times> nat) set"
  have faces: "set ts = {(0, 1, 2), (0, 2, 3)} \<or> set ts = {(0, 1, 3), (1, 2, 3)}"
    using assms by (rule square_triangulations)
  from assms have "distinct ts"
    by (simp add: delaunay_triangulation_def)
  then have len_ts: "length ts = card (set ts)"
    by (simp add: distinct_card)
  have "card {(0, 1, 2), (0, 2, 3) :: triangle} = 2" and "card {(0, 1, 3), (1, 2, 3) :: triangle} = 2"
    by simp_all
  with faces have "card (set ts) = 2"
    by (elim disjE) (simp_all only:)
  with len_ts have two: "length ts = 2"
    by (simp only:)
  have pairs: "set (edge_pairs ?g) = set (tri_edges s) \<union> set (tri_edges t)"
    if "set ts = {s, t}" for s t
    using that by (simp add: edge_pairs_triangulation_graph)
  have shape: "set ts = {(0, 1, 2), (0, 2, 3)} \<and>
       set (edge_pairs ?g) = {(0, 1), (1, 2), (2, 3), (0, 3), (0, 2)}
     \<or> set ts = {(0, 1, 3), (1, 2, 3)} \<and>
       set (edge_pairs ?g) = {(0, 1), (1, 2), (2, 3), (0, 3), (1, 3)}"
    using faces
  proof
    assume f: "set ts = {(0, 1, 2), (0, 2, 3)}"
    from pairs[OF f] have "set (edge_pairs ?g) = {(0, 1), (1, 2), (2, 3), (0, 3), (0, 2)}"
      by (simp only: square_edges_02)
    with f show ?thesis by blast
  next
    assume f: "set ts = {(0, 1, 3), (1, 2, 3)}"
    from pairs[OF f] have "set (edge_pairs ?g) = {(0, 1), (1, 2), (2, 3), (0, 3), (1, 3)}"
      by (simp only: square_edges_13)
    with f show ?thesis by blast
  qed
  then have graph: "set (edge_pairs ?g) = insert (0, 2) ?sides \<or>
      set (edge_pairs ?g) = insert (1, 3) ?sides"
    by (elim disjE conjE) (simp_all add: insert_commute)
  have dist: "distinct (edge_pairs ?g)"
    by (simp add: edge_pairs_triangulation_graph)
  have len_g: "length (edges ?g) = card (set (edge_pairs ?g))"
    using distinct_card[OF dist] by (simp add: edge_pairs_def)
  have "card (insert (0, 2) ?sides) = 5" and "card (insert (1, 3) ?sides) = 5"
    by simp_all
  with graph have "card (set (edge_pairs ?g)) = 5"
    by (elim disjE) (simp_all only:)
  with len_g have five: "length (edges ?g) = 5"
    by (simp only:)
  have nodes: "nodes ?g = square_nodes"
    by (simp add: triangulation_graph_def)
  have kept: "set (edge_pairs (BetaSkeletonFilter_filterBetaSkeletonEdges 1 ?g)) =
      {(u, v). \<exists>w. (u, v, w) \<in> set (edges ?g) \<and> beta_retains 1 ?g (u, v, w)}"
    unfolding edge_pairs_beta by force
  have member: "(\<exists>w. (u, v, w) \<in> set (edges ?g)) \<longleftrightarrow> (u, v) \<in> set (edge_pairs ?g)" for u v
    unfolding edge_pairs_def by force
  have retained: "beta_retains 1 ?g (u, v, w) \<longleftrightarrow> (u, v) \<in> ?sides"
    if "(u, v) \<in> insert (0, 2) (insert (1, 3) ?sides)" for u v w
    using that square_beta_retains[OF nodes, of w] by (elim insertE) simp_all
  have inside: "(u, v) \<in> insert (0, 2) (insert (1, 3) ?sides)"
    if "(u, v, w) \<in> set (edges ?g)" for u v w
  proof -
    from that have "(u, v) \<in> set (edge_pairs ?g)"
      using member by blast
    with graph have "(u, v) \<in> insert (0, 2) ?sides \<or> (u, v) \<in> insert (1, 3) ?sides"
      by (elim disjE) (simp_all only: simp_thms)
    then show ?thesis
      by (elim disjE) (simp_all only: insert_iff, auto)
  qed
  have sides_in: "e \<in> set (edge_pairs ?g)" if "e \<in> ?sides" for e
  proof -
    from that have "e \<in> insert (0, 2) ?sides" and "e \<in> insert (1, 3) ?sides"
      by (simp_all only: insert_iff, auto)
    with graph show ?thesis
      by (elim disjE) (simp_all only: simp_thms)
  qed
  have cycle: "set (edge_pairs (BetaSkeletonFilter_filterBetaSkeletonEdges 1 ?g)) = ?sides"
  proof
    show "set (edge_pairs (BetaSkeletonFilter_filterBetaSkeletonEdges 1 ?g)) \<subseteq> ?sides"
    proof
      fix e assume "e \<in> set (edge_pairs (BetaSkeletonFilter_filterBetaSkeletonEdges 1 ?g))"
      then obtain u v w where uv: "e = (u, v)" and w: "(u, v, w) \<in> set (edges ?g)"
        and r: "beta_retains 1 ?g (u, v, w)"
        unfolding kept by auto
      from retained[OF inside[OF w], of w] r uv show "e \<in> ?sides"
        by (simp only:)
    qed
  next
    show "?sides \<subseteq> set (edge_pairs (BetaSkeletonFilter_filterBetaSkeletonEdges 1 ?g))"
    proof
      fix e assume e: "e \<in> ?sides"
      obtain u v where uv: "e = (u, v)" by (cases e) auto
      from sides_in[OF e] uv have "(u, v) \<in> set (edge_pairs ?g)"
        by (simp only:)
      then obtain w where w: "(u, v, w) \<in> set (edges ?g)"
        using member by blast
      from e uv have "(u, v) \<in> ?sides"
        by (simp only:)
      with retained[OF inside[OF w], of w] have "beta_retains 1 ?g (u, v, w)"
        by (simp only:)
      with w uv show "e \<in> set (edge_pairs (BetaSkeletonFilter_filterBetaSkeletonEdges 1 ?g))"
        unfolding kept by blast
    qed
  qed
  have "distinct (edge_pairs (BetaSkeletonFilter_filterBetaSkeletonEdges 1 ?g))"
    unfolding edge_pairs_beta using dist
    by (simp add: edge_pairs_def distinct_map_filter)
  from distinct_card[OF this]
  have len_b: "length (edges (BetaSkeletonFilter_filterBetaSkeletonEdges 1 ?g)) =
      card (set (edge_pairs (BetaSkeletonFilter_filterBetaSkeletonEdges 1 ?g)))"
    by (simp add: edge_pairs_def)
  have "card ?sides = 4"
    by simp
  with cycle len_b have four: "length (edges (BetaSkeletonFilter_filterBetaSkeletonEdges 1 ?g)) = 4"
    by (simp only:)
  from two shape five cycle four show ?thesis
    by blast
qed

lemma square_delaunay: "delaunay_triangulation square_nodes [(0, 1, 2), (0, 2, 3)]"
  by (simp add: delaunay_triangulation_def square_geometry face_ok_def empty_circumcircle_def
      inside_circumcircle_def in_circle_det_def tri_edges_def boundary_edge_def)

theorem unit_square_beta_skeleton_witness:
  "delaunay_triangulation square_nodes [(0, 1, 2), (0, 2, 3)] \<and>
   edges (triangulation_graph square_weight square_nodes [(0, 1, 2), (0, 2, 3)]) =
     [(0, 1, 1), (1, 2, 1), (0, 2, 1.5), (2, 3, 1), (0, 3, 1)] \<and>
   set (edge_pairs (BetaSkeletonFilter_filterBetaSkeletonEdges 1
          (triangulation_graph square_weight square_nodes [(0, 1, 2), (0, 2, 3)]))) =
     {(0, 1), (1, 2), (2, 3), (0, 3)} \<and>
   length (edges (BetaSkeletonFilter_filterBetaSkeletonEdges 1
          (triangulation_graph square_weight square_nodes [(0, 1, 2), (0, 2, 3)]))) = 4"
proof -
  have "edges (triangulation_graph square_weight square_nodes [(0, 1, 2), (0, 2, 3)]) =
     [(0, 1, 1), (1, 2, 1), (0, 2, 1.5), (2, 3, 1), (0, 3, 1)]"
    by (simp add: triangulation_graph_def tri_edges_def square_nodes_def square_weight_def
        dist2_def)
  with unit_square_beta_skeleton[OF square_delaunay, of square_weight] square_delaunay
  show ?thesis by blast
qed

end
